theory Spec2Isabelle
  imports Main "HOL-Library.Word"
begin

unbundle bit_operations_syntax

section \<open>JavaScript numbers, bytes and arrays\<close>

text \<open>
  The program is \<^verbatim>\<open>src/js/protocols/stm32.js\<close>, the host side of the STM32 USART
  bootloader protocol.  Its numbers are JavaScript numbers.  Every quantity the protocol
  code computes with is an integer far below \<open>2 ^ 53\<close>, where the arithmetic of doubles is
  exact, so a number is an \<^typ>\<open>int\<close> here.  The bitwise operators first convert their
  operands to signed 32-bit integers (\<open>ToInt32\<close>); a number stored into a
  \<^verbatim>\<open>Uint8Array\<close> keeps its low eight bits (\<open>ToUint8\<close>).
\<close>

type_synonym byte = "8 word"

definition ToInt32 :: "int \<Rightarrow> int" where
  "ToInt32 x = signed_take_bit 31 x"

definition ToUint8 :: "int \<Rightarrow> byte" where
  "ToUint8 x = word_of_int x"

definition js_xor :: "int \<Rightarrow> int \<Rightarrow> int" where
  "js_xor a b = ToInt32 a XOR ToInt32 b"

definition js_or :: "int \<Rightarrow> int \<Rightarrow> int" where
  "js_or a b = ToInt32 a OR ToInt32 b"

definition js_and :: "int \<Rightarrow> int \<Rightarrow> int" where
  "js_and a b = ToInt32 a AND ToInt32 b"

text \<open>\<^verbatim>\<open>a >> n\<close> is the arithmetic shift of the signed 32-bit value, \<^verbatim>\<open>a << n\<close> wraps.\<close>

definition js_shr :: "int \<Rightarrow> nat \<Rightarrow> int" where
  "js_shr a n = drop_bit n (ToInt32 a)"

definition js_shl :: "int \<Rightarrow> nat \<Rightarrow> int" where
  "js_shl a n = ToInt32 (push_bit n (ToInt32 a))"

text \<open>
  \<^verbatim>\<open>arr[i]\<close> beyond the end of an array is \<^verbatim>\<open>undefined\<close> (\<open>None\<close>).  As an operand
  of a bitwise operator, and as an element copied into a \<^verbatim>\<open>Uint8Array\<close>,
  \<^verbatim>\<open>undefined\<close> counts as 0.  \<^verbatim>\<open>arr[i] = v\<close> at or beyond the end extends the array;
  the holes it leaves are \<^verbatim>\<open>undefined\<close>, kept here as the 0 they are transmitted as.
\<close>

definition js_index :: "'a list \<Rightarrow> nat \<Rightarrow> 'a option" where
  "js_index arr i = (if i < length arr then Some (arr ! i) else None)"

definition js_number :: "byte option \<Rightarrow> int" where
  "js_number v = (case v of None \<Rightarrow> 0 | Some b \<Rightarrow> uint b)"

definition js_set :: "int list \<Rightarrow> nat \<Rightarrow> int \<Rightarrow> int list" where
  "js_set arr i v =
     (if i < length arr then arr[i := v]
      else arr @ replicate (i - length arr) 0 @ [v])"

text \<open>
  The result of \<^verbatim>\<open>Math.ceil(maxAddress / page_size)\<close>: a division by a zero page size
  gives an infinity or \<^verbatim>\<open>NaN\<close> instead of an integer.
\<close>

datatype jsnum = Num int | PosInfinity | NegInfinity | NaN

datatype js_error = TypeError | ReferenceError

section \<open>The session object\<close>

text \<open>One entry of \<^verbatim>\<open>hex.data\<close>: a block of the parsed firmware image.\<close>

record segment =
  address :: int
  bytes :: nat
  data :: "byte list"

text \<open>
  The callbacks of the source are closures handed to \<^verbatim>\<open>send\<close> and \<^verbatim>\<open>retrieve\<close>.
  Each closure is a constructor here, carrying the constant it captured
  (\<^verbatim>\<open>bytesToWrite\<close>); its body is the function of the same name further down.
\<close>

datatype callback =
    CbInit
  | CbGetAck | CbGetBlock
  | CbIdAck | CbIdBlock
  | CbExtGlobalCmd | CbExtLocalCmd | CbGlobalCmd | CbLocalCmd | CbEraseFrame
  | CbWriteCmd nat | CbWriteAddr nat | CbWriteData
  | CbGoCmd

text \<open>
  What the session reports: the keys given to \<^verbatim>\<open>flashingMessage\<close> and the two
  console lines of \<^verbatim>\<open>verify_chip_signature\<close> that tell its two failures apart.
\<close>

datatype message =
    stm32ContactingBootloader
  | stm32ContactingBootloaderFailed
  | stm32ResponseBootloaderFailed
  | stm32TimedOut
  | stm32WrongResponse byte byte
  | stm32GlobalEraseExtended
  | stm32LocalEraseExtended
  | stm32GlobalErase
  | stm32LocalErase
  | stm32Flashing
  | stm32Verifying
  | LogHexBiggerThanFlash nat nat
  | LogChipNotRecognized int

text \<open>
  The fields of \<^verbatim>\<open>STM32_protocol\<close> that the protocol uses, the variables the closures
  of steps 1 and 5 share (\<open>sendCounter\<close>; \<open>blocks\<close>, \<open>flashing_block\<close>,
  \<open>write_address\<close> for the source's \<^verbatim>\<open>address\<close>, \<open>bytes_flashed\<close>), and what the
  session does to its surroundings: the two named intervals of the GUI, the serial
  connection, the frames given to \<^verbatim>\<open>serial.send\<close> in order, the steps
  \<^verbatim>\<open>upload_procedure\<close> was called with, the messages, the exceptions thrown, the
  calls of \<^verbatim>\<open>cleanup\<close>, and \<open>hung\<close> for a loop that never ends.
\<close>

record session =
  hex_data :: "segment list"
  hex_bytes_total :: nat
  erase_chip :: bool
  verify_hex :: "byte list list"
  receive_buffer :: "byte list"
  bytesToRead :: nat
  read_callback :: "callback option"
  upload_process_alive :: bool
  available_flash_size :: nat
  page_size :: nat
  useExtendedErase :: bool
  sendCounter :: nat
  blocks :: int
  flashing_block :: nat
  write_address :: int
  bytes_flashed :: nat
  interval_initialize_mcu :: bool
  interval_timeout :: bool
  connectionId :: bool
  serial_out :: "byte list list"
  procedure_calls :: "nat list"
  messages :: "message list"
  exceptions :: "js_error list"
  cleanups :: nat
  hung :: bool

definition ACK :: byte where "ACK = 0x79"
definition NACK :: byte where "NACK = 0x1F"

text \<open>
  An exception unwinds to the event loop.  Every call that can throw is the last thing
  its callers do, so throwing is: record the exception and stop with the state reached.
\<close>

definition throw :: "js_error \<Rightarrow> session \<Rightarrow> session" where
  "throw e s = s\<lparr>exceptions := exceptions s @ [e]\<rparr>"

definition flashingMessage :: "message \<Rightarrow> session \<Rightarrow> session" where
  "flashingMessage m s = s\<lparr>messages := messages s @ [m]\<rparr>"

definition enter :: "nat \<Rightarrow> session \<Rightarrow> session" where
  "enter step s = s\<lparr>procedure_calls := procedure_calls s @ [step]\<rparr>"

section \<open>Port input and output\<close>

text \<open>
  \<^verbatim>\<open>send\<close>: the outgoing array is copied into a \<^verbatim>\<open>Uint8Array\<close>
  (\<^verbatim>\<open>bufferView.set\<close>), which truncates every element to a byte.
\<close>

definition send :: "int list \<Rightarrow> nat \<Rightarrow> callback \<Rightarrow> session \<Rightarrow> session" where
  "send bytes_to_send n cb s =
     s\<lparr>upload_process_alive := True,
       bytesToRead := n,
       read_callback := Some cb,
       receive_buffer := [],
       serial_out := serial_out s @ [map ToUint8 bytes_to_send]\<rparr>"

text \<open>
  \<^verbatim>\<open>retrieve\<close>: \<open>body\<close> is the body of the closure \<open>cb\<close>, run at once when the
  buffer already holds the bytes.
\<close>

definition retrieve ::
  "nat \<Rightarrow> callback \<Rightarrow> (byte list \<Rightarrow> session \<Rightarrow> session) \<Rightarrow> session \<Rightarrow> session" where
  "retrieve nBytes cb body s =
     (if nBytes \<le> length (receive_buffer s)
      then body (take nBytes (receive_buffer s))
                (s\<lparr>receive_buffer := drop nBytes (receive_buffer s)\<rparr>)
      else s\<lparr>bytesToRead := nBytes, read_callback := Some cb\<rparr>)"

text \<open>
  Modelled from the spec: \<^verbatim>\<open>serial.disconnect\<close> and \<^verbatim>\<open>GUI.interval_remove\<close> are
  not part of the source file.  Step 99 stops the watchdog interval, closes the port if a
  connection exists and runs \<^verbatim>\<open>cleanup\<close> (counted in \<open>cleanups\<close>).
\<close>

definition upload_procedure_99 :: "session \<Rightarrow> session" where
  "upload_procedure_99 s =
     (let s1 = (enter 99 s)\<lparr>interval_timeout := False\<rparr>
      in if connectionId s1
         then s1\<lparr>connectionId := False, cleanups := cleanups s1 + 1\<rparr>
         else s1\<lparr>cleanups := cleanups s1 + 1\<rparr>)"

text \<open>
  \<^verbatim>\<open>verify_response\<close>.  On an empty response \<^verbatim>\<open>data[0]\<close> is \<^verbatim>\<open>undefined\<close>, which
  differs from \<open>val\<close>, and building the message calls \<^verbatim>\<open>toString\<close> on it: a
  \<^verbatim>\<open>TypeError\<close>.
\<close>

definition verify_response :: "byte \<Rightarrow> byte list \<Rightarrow> session \<Rightarrow> bool \<times> session" where
  "verify_response val dat s =
     (case js_index dat 0 of
        None \<Rightarrow> (False, throw TypeError s)
      | Some d \<Rightarrow>
          if val \<noteq> d
          then (False, upload_procedure_99 (flashingMessage (stm32WrongResponse val d) s))
          else (True, s))"

section \<open>Steps 6 and 7\<close>

text \<open>
  The cases of \<^verbatim>\<open>upload_procedure\<close> share one block scope.  \<^verbatim>\<open>blocks\<close> and
  \<^verbatim>\<open>address\<close> are declared with \<^verbatim>\<open>let\<close> in case 5; a call that enters at case 6 or
  7 has not run that declaration, and an assignment to a binding that is not yet
  initialised throws a \<^verbatim>\<open>ReferenceError\<close>.  Case 6 assigns \<^verbatim>\<open>blocks\<close> right after
  its message; the closure of case 7 assigns \<^verbatim>\<open>address\<close> before it sends the
  address frame.
\<close>

definition upload_procedure_6 :: "session \<Rightarrow> session" where
  "upload_procedure_6 s = throw ReferenceError (flashingMessage stm32Verifying (enter 6 s))"

definition upload_procedure_7 :: "session \<Rightarrow> session" where
  "upload_procedure_7 s = send [0x21, 0xDE] 1 CbGoCmd (enter 7 s)"

definition cb_go_cmd :: "byte list \<Rightarrow> session \<Rightarrow> session" where
  "cb_go_cmd reply s =
     (let (ok, s1) = verify_response ACK reply s
      in if ok then throw ReferenceError s1 else s1)"

text \<open>
  \<^verbatim>\<open>verify_flash\<close>, the comparison of step 6:
  \<^verbatim>\<open>for (let i = 0; i < firstArray.length; i++) { if (firstArray[i] !== secondArray[i])
  { console.log(...); return false; } } return true;\<close>
  Beyond the end of \<open>secondArray\<close> the element is \<^verbatim>\<open>undefined\<close>: it differs from
  the byte of \<open>firstArray\<close>, and the console line then calls \<^verbatim>\<open>toString\<close> on it,
  which throws instead of returning \<^verbatim>\<open>false\<close>.
\<close>

function verify_flash_from :: "nat \<Rightarrow> byte list \<Rightarrow> byte list \<Rightarrow> js_error + bool" where
  "verify_flash_from i firstArray secondArray =
     (if i < length firstArray
      then (case js_index secondArray i of
              None \<Rightarrow> Inl TypeError
            | Some b \<Rightarrow>
                if firstArray ! i \<noteq> b then Inr False
                else verify_flash_from (i + 1) firstArray secondArray)
      else Inr True)"
  by pat_completeness auto
termination
  by (relation "measure (\<lambda>(i, firstArray, secondArray). length firstArray - i)") auto

definition verify_flash :: "byte list \<Rightarrow> byte list \<Rightarrow> js_error + bool" where
  "verify_flash firstArray secondArray = verify_flash_from 0 firstArray secondArray"

section \<open>Step 5: write\<close>

text \<open>The address frame: four unmasked shift results and their XOR.\<close>

definition address_frame :: "int \<Rightarrow> int list" where
  "address_frame addr =
     (let addressArray = [js_shr addr 24, js_shr addr 16, js_shr addr 8, addr];
          addressChecksum =
            js_xor (js_xor (js_xor (addressArray ! 0) (addressArray ! 1)) (addressArray ! 2))
                   (addressArray ! 3)
      in [addressArray ! 0, addressArray ! 1, addressArray ! 2, addressArray ! 3,
          addressChecksum])"

text \<open>
  The loop that fills the data frame:
  \<^verbatim>\<open>for (let ii = 0; ii < bytesToWrite; ii++) { arrayOut[ii + 1] = data[bytes_flashed];
  checksum ^= data[bytes_flashed]; bytes_flashed++; }\<close>
\<close>

function write_fill ::
  "nat \<Rightarrow> nat \<Rightarrow> byte list \<Rightarrow> int list \<times> int \<times> nat \<Rightarrow> int list \<times> int \<times> nat" where
  "write_fill ii bytesToWrite dat (arrayOut, checksum, flashed) =
     (if ii < bytesToWrite
      then write_fill (ii + 1) bytesToWrite dat
             (js_set arrayOut (ii + 1) (js_number (js_index dat flashed)),
              js_xor checksum (js_number (js_index dat flashed)),
              flashed + 1)
      else (arrayOut, checksum, flashed))"
  by pat_completeness auto
termination
  by (relation "measure (\<lambda>(ii, bytesToWrite, dat, acc). bytesToWrite - ii)") auto

text \<open>
  The data frame.  \<^verbatim>\<open>Array.from(bytesToWrite + 2)\<close> is applied to a number, which is
  neither iterable nor array-like, so it returns the empty array; the array then grows by
  the indexed assignments, and \<^verbatim>\<open>arrayOut.length - 1\<close> is the index of the last
  payload byte when the checksum is stored.
\<close>

definition data_frame :: "nat \<Rightarrow> byte list \<Rightarrow> nat \<Rightarrow> int list \<times> nat" where
  "data_frame bytesToWrite dat flashed =
     (let arrayOut = [];
          arrayOut = js_set arrayOut 0 (int bytesToWrite - 1);
          checksum = arrayOut ! 0;
          (arrayOut, checksum, flashed) =
             write_fill 0 bytesToWrite dat (arrayOut, checksum, flashed);
          arrayOut = js_set arrayOut (length arrayOut - 1) checksum
      in (arrayOut, flashed))"

text \<open>
  The closure \<^verbatim>\<open>write\<close> (\<open>write_next\<close> here, \<open>write\<close> being a command of
  Isabelle), which starts one chunk or moves to the next block.  Reading a
  field of \<^verbatim>\<open>hex.data[flashing_block]\<close> throws when there is no such block.
\<close>

function write_next :: "session \<Rightarrow> session" where
  "write_next s =
     (case js_index (hex_data s) (flashing_block s) of
        None \<Rightarrow> throw TypeError s
      | Some seg \<Rightarrow>
          if bytes_flashed s < bytes seg
          then (let bytesToWrite =
                      (if bytes_flashed s + 256 \<le> bytes seg then 256
                       else bytes seg - bytes_flashed s)
                in send [0x31, 0xCE] 1 (CbWriteCmd bytesToWrite) s)
          else if int (flashing_block s) < blocks s
          then (case js_index (hex_data s) (flashing_block s + 1) of
                  None \<Rightarrow> throw TypeError (s\<lparr>flashing_block := flashing_block s + 1\<rparr>)
                | Some seg' \<Rightarrow>
                    write_next (s\<lparr>flashing_block := flashing_block s + 1,
                             write_address := address seg',
                             bytes_flashed := 0\<rparr>))
          else upload_procedure_6 s)"
  by pat_completeness auto
termination
  by (relation "measure (\<lambda>s. nat (blocks s - int (flashing_block s)))") auto

definition cb_write_data :: "byte list \<Rightarrow> session \<Rightarrow> session" where
  "cb_write_data response s =
     (let (ok, s1) = verify_response ACK response s
      in if ok then write_next s1 else s1)"

definition cb_write_addr :: "nat \<Rightarrow> byte list \<Rightarrow> session \<Rightarrow> session" where
  "cb_write_addr bytesToWrite reply s =
     (let (ok, s1) = verify_response ACK reply s
      in if \<not> ok then s1
         else if 0 < bytesToWrite \<and> js_index (hex_data s1) (flashing_block s1) = None
         then throw TypeError s1
         else
           (let dat = (case js_index (hex_data s1) (flashing_block s1) of
                         None \<Rightarrow> [] | Some seg \<Rightarrow> data seg);
                (arrayOut, flashed) = data_frame bytesToWrite dat (bytes_flashed s1);
                s2 = s1\<lparr>bytes_flashed := flashed,
                        write_address := write_address s1 + int bytesToWrite\<rparr>
            in send arrayOut 1 CbWriteData s2))"

definition cb_write_cmd :: "nat \<Rightarrow> byte list \<Rightarrow> session \<Rightarrow> session" where
  "cb_write_cmd bytesToWrite reply s =
     (let (ok, s1) = verify_response ACK reply s
      in if ok then send (address_frame (write_address s1)) 1 (CbWriteAddr bytesToWrite) s1
         else s1)"

definition upload_procedure_5 :: "session \<Rightarrow> session" where
  "upload_procedure_5 s =
     (let s1 = flashingMessage stm32Flashing (enter 5 s);
          s2 = s1\<lparr>blocks := int (length (hex_data s1)) - 1, flashing_block := 0\<rparr>
      in case js_index (hex_data s2) 0 of
           None \<Rightarrow> throw TypeError s2
         | Some seg \<Rightarrow> write_next (s2\<lparr>write_address := address seg, bytes_flashed := 0\<rparr>))"

section \<open>Step 4: erase\<close>

definition max_address :: "segment \<Rightarrow> int" where
  "max_address seg = address seg + int (bytes seg) - 0x8000000"

text \<open>
  \<^verbatim>\<open>Math.ceil(maxAddress / page_size)\<close>.  For a positive page size the quotient of
  two integers of this size is rounded up exactly.
\<close>

definition erase_pages_n :: "int \<Rightarrow> nat \<Rightarrow> jsnum" where
  "erase_pages_n maxAddress pageSize =
     (if pageSize = 0
      then (if 0 < maxAddress then PosInfinity
            else if maxAddress < 0 then NegInfinity else NaN)
      else Num (- ((- maxAddress) div int pageSize)))"

text \<open>
  The page loop of the extended dialect:
  \<^verbatim>\<open>for (let i = 0; i < erasePagesN; i++) { pgByte = i >> 8; buff.push(pgByte);
  checksum ^= pgByte; pgByte = i & 0xFF; buff.push(pgByte); checksum ^= pgByte; }\<close>
\<close>

function extended_pages :: "nat \<Rightarrow> int \<Rightarrow> int list \<times> int \<Rightarrow> int list \<times> int" where
  "extended_pages i erasePagesN (buff, checksum) =
     (if int i < erasePagesN
      then (let pgByte = js_shr (int i) 8;
                buff = buff @ [pgByte];
                checksum = js_xor checksum pgByte;
                pgByte = js_and (int i) 0xFF;
                buff = buff @ [pgByte];
                checksum = js_xor checksum pgByte
            in extended_pages (i + 1) erasePagesN (buff, checksum))
      else (buff, checksum))"
  by pat_completeness auto
termination
  by (relation "measure (\<lambda>(i, erasePagesN, acc). nat (erasePagesN - int i))") auto

text \<open>
  The list frame of the extended dialect, as the array given to \<^verbatim>\<open>send\<close>.  With an
  infinite page count the loop never ends (\<open>None\<close>); with \<^verbatim>\<open>NaN\<close> or minus infinity
  the bitwise operators read the count as 0 and the loop does not run.
\<close>

definition extended_erase_frame :: "jsnum \<Rightarrow> int list option" where
  "extended_erase_frame erasePagesN =
     (case erasePagesN of
        Num n \<Rightarrow>
          (let buff = [];
               checksum = 0;
               pgByte = js_shr (n - 1) 8;
               buff = buff @ [pgByte];
               checksum = js_xor checksum pgByte;
               pgByte = js_and (n - 1) 0xFF;
               buff = buff @ [pgByte];
               checksum = js_xor checksum pgByte;
               (buff, checksum) = extended_pages 0 n (buff, checksum)
           in Some (buff @ [checksum]))
      | PosInfinity \<Rightarrow> None
      | _ \<Rightarrow> Some [0, 0, 0])"

text \<open>
  The page loop of the classic dialect:
  \<^verbatim>\<open>for (let ii = 0; ii < erasePagesN; ii++) { buff.push(ii); checksum ^= ii; }\<close>
\<close>

function classic_pages :: "nat \<Rightarrow> int \<Rightarrow> int list \<times> int \<Rightarrow> int list \<times> int" where
  "classic_pages ii erasePagesN (buff, checksum) =
     (if int ii < erasePagesN
      then classic_pages (ii + 1) erasePagesN (buff @ [int ii], js_xor checksum (int ii))
      else (buff, checksum))"
  by pat_completeness auto
termination
  by (relation "measure (\<lambda>(ii, erasePagesN, acc). nat (erasePagesN - int ii))") auto

text \<open>
  The list frame of the classic dialect.  With \<^verbatim>\<open>NaN\<close> or minus infinity both
  elements of the array are that value, transmitted as 0.
\<close>

definition classic_erase_frame :: "jsnum \<Rightarrow> int list option" where
  "classic_erase_frame erasePagesN =
     (case erasePagesN of
        Num n \<Rightarrow>
          (let buff = [];
               checksum = n - 1;
               buff = buff @ [n - 1];
               (buff, checksum) = classic_pages 0 n (buff, checksum)
           in Some (buff @ [checksum]))
      | PosInfinity \<Rightarrow> None
      | _ \<Rightarrow> Some [0, 0])"

text \<open>
  The four closures that await the ACK of the second erase frame do the same: on ACK,
  step 5.
\<close>

definition cb_erase_frame :: "byte list \<Rightarrow> session \<Rightarrow> session" where
  "cb_erase_frame reply s =
     (let (ok, s1) = verify_response ACK reply s
      in if ok then upload_procedure_5 s1 else s1)"

definition cb_ext_global_cmd :: "byte list \<Rightarrow> session \<Rightarrow> session" where
  "cb_ext_global_cmd reply s =
     (let (ok, s1) = verify_response ACK reply s
      in if ok then send [0xFF, 0xFF, 0x00] 1 CbEraseFrame s1 else s1)"

text \<open>
  The partial erase reads the last block of the image; \<^verbatim>\<open>hex.data[-1]\<close> of an empty
  image is \<^verbatim>\<open>undefined\<close> and reading its address throws.
\<close>

definition local_erase :: "(jsnum \<Rightarrow> int list option) \<Rightarrow> session \<Rightarrow> session" where
  "local_erase frame s =
     (if hex_data s = [] then throw TypeError s
      else
        (let maxAddress = max_address (last (hex_data s));
             erasePagesN = erase_pages_n maxAddress (page_size s)
         in case frame erasePagesN of
              None \<Rightarrow> s\<lparr>hung := True\<rparr>
            | Some buff \<Rightarrow> send buff 1 CbEraseFrame s))"

definition cb_ext_local_cmd :: "byte list \<Rightarrow> session \<Rightarrow> session" where
  "cb_ext_local_cmd reply s =
     (let (ok, s1) = verify_response ACK reply s
      in if ok then local_erase extended_erase_frame s1 else s1)"

definition cb_global_cmd :: "byte list \<Rightarrow> session \<Rightarrow> session" where
  "cb_global_cmd reply s =
     (let (ok, s1) = verify_response ACK reply s
      in if ok then send [0xFF, 0x00] 1 CbEraseFrame s1 else s1)"

definition cb_local_cmd :: "byte list \<Rightarrow> session \<Rightarrow> session" where
  "cb_local_cmd reply s =
     (let (ok, s1) = verify_response ACK reply s
      in if ok then local_erase classic_erase_frame s1 else s1)"

definition upload_procedure_4 :: "session \<Rightarrow> session" where
  "upload_procedure_4 s =
     (let s1 = enter 4 s
      in if useExtendedErase s1
         then (if erase_chip s1
               then send [0x44, 0xBB] 1 CbExtGlobalCmd
                      (flashingMessage stm32GlobalEraseExtended s1)
               else send [0x44, 0xBB] 1 CbExtLocalCmd
                      (flashingMessage stm32LocalEraseExtended s1))
         else (if erase_chip s1
               then send [0x43, 0xBC] 1 CbGlobalCmd (flashingMessage stm32GlobalErase s1)
               else send [0x43, 0xBC] 1 CbLocalCmd (flashingMessage stm32LocalErase s1)))"

section \<open>Step 3: chip identification\<close>

text \<open>
  \<^verbatim>\<open>verify_chip_signature\<close>.  Of the seventeen product ids of the \<^verbatim>\<open>switch\<close>, three
  assign the flash geometry; the others only print the family.  The fields
  \<^verbatim>\<open>available_flash_size\<close> and \<^verbatim>\<open>page_size\<close> are written nowhere else: they are 0
  in a new object and \<^verbatim>\<open>initialize\<close> leaves them as they are.
\<close>

definition verify_chip_signature :: "int \<Rightarrow> session \<Rightarrow> bool \<times> session" where
  "verify_chip_signature signature s =
     (let s1 = (if signature = 0x410
                then s\<lparr>available_flash_size := 131072, page_size := 1024\<rparr>
                else if signature = 0x414
                then s\<lparr>available_flash_size := 0x40000, page_size := 2048\<rparr>
                else if signature = 0x422
                then s\<lparr>available_flash_size := 0x40000, page_size := 2048\<rparr>
                else s)
      in if 0 < available_flash_size s1
         then (if hex_bytes_total s1 < available_flash_size s1
               then (True, s1)
               else (False, flashingMessage
                              (LogHexBiggerThanFlash (hex_bytes_total s1)
                                 (available_flash_size s1)) s1))
         else (False, flashingMessage (LogChipNotRecognized signature) s1))"

text \<open>\<^verbatim>\<open>const signature = (data[0] << 8) | data[1];\<close>\<close>

definition signature_of :: "byte list \<Rightarrow> int" where
  "signature_of dat =
     js_or (js_shl (js_number (js_index dat 0)) 8) (js_number (js_index dat 1))"

definition cb_id_block :: "byte list \<Rightarrow> session \<Rightarrow> session" where
  "cb_id_block dat s =
     (let signature = signature_of dat;
          (ok, s1) = verify_chip_signature signature s
      in if ok then upload_procedure_4 s1 else upload_procedure_99 s1)"

text \<open>
  The number of bytes to retrieve is \<^verbatim>\<open>data[1] + 1 + 1\<close>.  Were there no second
  byte, the sum would be \<^verbatim>\<open>NaN\<close>, a request that no buffer length satisfies; the
  pending read is then the one that never fires, \<open>bytesToRead = 0\<close>.
\<close>

definition retrieve_block ::
  "byte list \<Rightarrow> callback \<Rightarrow> (byte list \<Rightarrow> session \<Rightarrow> session) \<Rightarrow> session \<Rightarrow> session" where
  "retrieve_block dat cb body s =
     (case js_index dat 1 of
        None \<Rightarrow> s\<lparr>bytesToRead := 0, read_callback := Some cb\<rparr>
      | Some n \<Rightarrow> retrieve (unat n + 1 + 1) cb body s)"

definition cb_id_ack :: "byte list \<Rightarrow> session \<Rightarrow> session" where
  "cb_id_ack dat s =
     (let (ok, s1) = verify_response ACK dat s
      in if ok then retrieve_block dat CbIdBlock cb_id_block s1 else s1)"

definition upload_procedure_3 :: "session \<Rightarrow> session" where
  "upload_procedure_3 s = send [0x02, 0xFD] 2 CbIdAck (enter 3 s)"

section \<open>Step 2: GET\<close>

text \<open>
  The closure that receives the block first prints the bootloader version with
  \<^verbatim>\<open>data[0].toString(16)\<close>, which throws on an empty block.
\<close>

definition cb_get_block :: "byte list \<Rightarrow> session \<Rightarrow> session" where
  "cb_get_block dat s =
     (if dat = [] then throw TypeError s
      else upload_procedure_3 (s\<lparr>useExtendedErase := (js_index dat 7 = Some 0x44)\<rparr>))"

definition cb_get_ack :: "byte list \<Rightarrow> session \<Rightarrow> session" where
  "cb_get_ack dat s =
     (let (ok, s1) = verify_response ACK dat s
      in if ok then retrieve_block dat CbGetBlock cb_get_block s1 else s1)"

definition upload_procedure_2 :: "session \<Rightarrow> session" where
  "upload_procedure_2 s = send [0x00, 0xFF] 2 CbGetAck (enter 2 s)"

section \<open>Step 1: auto-baud\<close>

definition cb_init :: "byte list \<Rightarrow> session \<Rightarrow> session" where
  "cb_init reply s =
     (if js_index reply 0 = Some 0x7F \<or> js_index reply 0 = Some ACK
         \<or> js_index reply 0 = Some NACK
      then upload_procedure_2 (s\<lparr>interval_initialize_mcu := False\<rparr>)
      else upload_procedure_99
             ((flashingMessage stm32ContactingBootloaderFailed s)
                \<lparr>interval_initialize_mcu := False\<rparr>))"

text \<open>
  The function given to \<^verbatim>\<open>GUI.interval_add('stm32_initialize_mcu', ..., 250, true)\<close>:
  it sends the probe, then compares and increments the counter.
\<close>

definition initialize_mcu_tick :: "session \<Rightarrow> session" where
  "initialize_mcu_tick s =
     (let s1 = send [0x7F] 1 CbInit s;
          counter = sendCounter s1;
          s2 = s1\<lparr>sendCounter := counter + 1\<rparr>
      in if 3 < counter
         then upload_procedure_99
                ((flashingMessage stm32ResponseBootloaderFailed s2)
                   \<lparr>interval_initialize_mcu := False, interval_timeout := False\<rparr>)
         else s2)"

text \<open>
  Modelled from the spec: \<^verbatim>\<open>GUI.interval_add\<close> is not part of the source file.  It
  registers a function that the scheduler then calls once per period; a registered
  interval is a flag here and each call is an event (see \<open>step\<close>).
\<close>

definition upload_procedure_1 :: "session \<Rightarrow> session" where
  "upload_procedure_1 s =
     (flashingMessage stm32ContactingBootloader (enter 1 s))
       \<lparr>sendCounter := 0, interval_initialize_mcu := True\<rparr>"

section \<open>The dispatcher, the receive handler and the watchdog\<close>

definition upload_procedure :: "nat \<Rightarrow> session \<Rightarrow> session" where
  "upload_procedure step s =
     (if step = 1 then upload_procedure_1 s
      else if step = 2 then upload_procedure_2 s
      else if step = 3 then upload_procedure_3 s
      else if step = 4 then upload_procedure_4 s
      else if step = 5 then upload_procedure_5 s
      else if step = 6 then upload_procedure_6 s
      else if step = 7 then upload_procedure_7 s
      else if step = 99 then upload_procedure_99 s
      else s)"

fun run_callback :: "callback \<Rightarrow> byte list \<Rightarrow> session \<Rightarrow> session" where
  "run_callback CbInit = cb_init"
| "run_callback CbGetAck = cb_get_ack"
| "run_callback CbGetBlock = cb_get_block"
| "run_callback CbIdAck = cb_id_ack"
| "run_callback CbIdBlock = cb_id_block"
| "run_callback CbExtGlobalCmd = cb_ext_global_cmd"
| "run_callback CbExtLocalCmd = cb_ext_local_cmd"
| "run_callback CbGlobalCmd = cb_global_cmd"
| "run_callback CbLocalCmd = cb_local_cmd"
| "run_callback CbEraseFrame = cb_erase_frame"
| "run_callback (CbWriteCmd bytesToWrite) = cb_write_cmd bytesToWrite"
| "run_callback (CbWriteAddr bytesToWrite) = cb_write_addr bytesToWrite"
| "run_callback CbWriteData = cb_write_data"
| "run_callback CbGoCmd = cb_go_cmd"

text \<open>
  \<^verbatim>\<open>read\<close>, the listener of the port: append the bytes, and serve the pending read once
  the buffer is long enough.
\<close>

definition read :: "byte list \<Rightarrow> session \<Rightarrow> session" where
  "read dat s =
     (let s1 = s\<lparr>receive_buffer := receive_buffer s @ dat\<rparr>
      in if bytesToRead s1 \<le> length (receive_buffer s1) \<and> bytesToRead s1 \<noteq> 0
         then (let fetched = take (bytesToRead s1) (receive_buffer s1);
                   s2 = s1\<lparr>receive_buffer := drop (bytesToRead s1) (receive_buffer s1),
                           bytesToRead := 0\<rparr>
               in case read_callback s2 of
                    None \<Rightarrow> throw TypeError s2
                  | Some cb \<Rightarrow> run_callback cb fetched s2)
         else s1)"

text \<open>The function of the interval \<^verbatim>\<open>STM32_timeout\<close>, called every 2000 ms.\<close>

definition timeout_tick :: "session \<Rightarrow> session" where
  "timeout_tick s =
     (if upload_process_alive s
      then s\<lparr>upload_process_alive := False\<rparr>
      else upload_procedure_99
             ((flashingMessage stm32TimedOut s)\<lparr>interval_timeout := False\<rparr>))"

definition initialize :: "session \<Rightarrow> session" where
  "initialize s =
     upload_procedure_1
       (s\<lparr>receive_buffer := [], verify_hex := [], upload_process_alive := False,
          interval_timeout := True\<rparr>)"

text \<open>
  The constructor \<^verbatim>\<open>STM32_protocol\<close>, followed by what \<^verbatim>\<open>connect\<close> stores before it
  calls \<^verbatim>\<open>initialize\<close> on an open port: the image and the option \<^verbatim>\<open>erase_chip\<close>.
\<close>

definition STM32_protocol :: session where
  "STM32_protocol =
     \<lparr>hex_data = [], hex_bytes_total = 0, erase_chip = False, verify_hex = [],
      receive_buffer = [], bytesToRead = 0, read_callback = None,
      upload_process_alive = False, available_flash_size = 0, page_size = 0,
      useExtendedErase = False, sendCounter = 0, blocks = 0, flashing_block = 0,
      write_address = 0, bytes_flashed = 0, interval_initialize_mcu = False,
      interval_timeout = False, connectionId = False, serial_out = [],
      procedure_calls = [], messages = [], exceptions = [], cleanups = 0, hung = False\<rparr>"

definition connect :: "segment list \<Rightarrow> nat \<Rightarrow> bool \<Rightarrow> session" where
  "connect segments bytesTotal eraseChip =
     initialize
       (STM32_protocol\<lparr>hex_data := segments, hex_bytes_total := bytesTotal,
                       erase_chip := eraseChip, connectionId := True\<rparr>)"

text \<open>
  \<^verbatim>\<open>STM32\<close> is one object for the life of the program, and every flashing attempt
  calls \<^verbatim>\<open>connect\<close> on it.  On an object that an earlier session has used,
  \<^verbatim>\<open>connect\<close> stores the new image and option and calls \<^verbatim>\<open>initialize\<close>; every
  other field keeps what the earlier session left in it.
\<close>

definition connect_again :: "session \<Rightarrow> segment list \<Rightarrow> nat \<Rightarrow> bool \<Rightarrow> session" where
  "connect_again s segments bytesTotal eraseChip =
     initialize
       (s\<lparr>hex_data := segments, hex_bytes_total := bytesTotal,
          erase_chip := eraseChip, connectionId := True\<rparr>)"

section \<open>Events\<close>

text \<open>
  The session is driven by three kinds of event: bytes arriving on the port, a call of
  the auto-baud interval and a call of the watchdog interval.  An interval that has been
  removed is not called, and a session stuck in an endless loop handles nothing more.
\<close>

datatype event = Receive "byte list" | TickInitializeMcu | TickTimeout

definition step :: "event \<Rightarrow> session \<Rightarrow> session" where
  "step e s =
     (if hung s then s
      else case e of
             Receive dat \<Rightarrow> read dat s
           | TickInitializeMcu \<Rightarrow> (if interval_initialize_mcu s then initialize_mcu_tick s else s)
           | TickTimeout \<Rightarrow> (if interval_timeout s then timeout_tick s else s))"

fun run :: "event list \<Rightarrow> session \<Rightarrow> session" where
  "run [] s = s"
| "run (e # es) s = run es (step e s)"

section \<open>Frames as the specification words them\<close>

text \<open>The XOR of all bytes of a list.\<close>

definition xor_fold :: "byte list \<Rightarrow> byte" where
  "xor_fold bs = foldr (XOR) bs 0"

text \<open>
  The list frame of a partial erase of \<open>pages\<close> pages, in the words of the
  specification.  The page count is the quotient rounded up.  Extended dialect: the two
  bytes of \<open>pages - 1\<close>, most significant first, then for each page index from 0 up to
  \<open>pages - 1\<close> its two bytes, then the XOR of all those bytes.  Classic dialect: the
  byte \<open>pages - 1\<close>, one byte per page index, then the XOR.  A number that does not
  fit its one or two bytes is taken to its low bits.
\<close>

definition ceil_div :: "int \<Rightarrow> int \<Rightarrow> int" where
  "ceil_div a b = - ((- a) div b)"

definition be16 :: "int \<Rightarrow> byte list" where
  "be16 v = [ToUint8 (v div 256), ToUint8 v]"

definition extended_list_frame_spec :: "int \<Rightarrow> byte list" where
  "extended_list_frame_spec pages =
     (let body = be16 (pages - 1) @ concat (map (\<lambda>i. be16 (int i)) [0..<nat pages])
      in body @ [xor_fold body])"

definition classic_list_frame_spec :: "int \<Rightarrow> byte list" where
  "classic_list_frame_spec pages =
     (let body = ToUint8 (pages - 1) # map (\<lambda>i. ToUint8 (int i)) [0..<nat pages]
      in body @ [xor_fold body])"

section \<open>Predicates on sessions\<close>

text \<open>
  A session with nothing pending: no read is awaited and neither interval is registered.
  This is the state step 99 leaves behind when it is reached from a closure that
  \<^verbatim>\<open>read\<close> has just served.
\<close>

definition quiescent :: "session \<Rightarrow> bool" where
  "quiescent s \<longleftrightarrow>
     bytesToRead s = 0 \<and> \<not> interval_initialize_mcu s \<and> \<not> interval_timeout s"

text \<open>
  A session that has left steps 1 and 2 behind: the auto-baud interval is removed and the
  closure awaiting bytes, if any, is not one of those two steps.
\<close>

definition late_callback :: "callback option \<Rightarrow> bool" where
  "late_callback c =
     (case c of
        None \<Rightarrow> True
      | Some cb \<Rightarrow> cb \<noteq> CbInit \<and> cb \<noteq> CbGetAck \<and> cb \<noteq> CbGetBlock)"

definition past_get :: "session \<Rightarrow> bool" where
  "past_get s \<longleftrightarrow> \<not> interval_initialize_mcu s \<and> late_callback (read_callback s)"

section \<open>Properties of the comparison of step 6\<close>

declare verify_flash_from.simps [simp del]
declare write_next.simps [simp del]
declare write_fill.simps [simp del]
declare extended_pages.simps [simp del]
declare classic_pages.simps [simp del]

lemma verify_flash_from_True:
  "verify_flash_from i f s = Inr True
     \<longleftrightarrow> (\<forall>j. i \<le> j \<and> j < length f \<longrightarrow> js_index s j = Some (f ! j))"
proof (induction i f s rule: verify_flash_from.induct)
  case (1 i f s)
  show ?case
  proof (cases "i < length f")
    case False
    then show ?thesis by (auto simp: verify_flash_from.simps [of i])
  next
    case True
    show ?thesis
    proof (cases "js_index s i")
      case None
      with True show ?thesis
        by (auto simp: verify_flash_from.simps [of i])
    next
      case (Some b)
      show ?thesis
      proof (cases "f ! i = b")
        case False
        with True Some show ?thesis
          by (auto simp: verify_flash_from.simps [of i])
      next
        case eq: True
        have "verify_flash_from i f s = verify_flash_from (i + 1) f s"
          using True Some eq by (simp add: verify_flash_from.simps [of i])
        also have "\<dots> = Inr True
            \<longleftrightarrow> (\<forall>j. i + 1 \<le> j \<and> j < length f \<longrightarrow> js_index s j = Some (f ! j))"
          using "1.IH" [OF True Some] eq by simp
        also have "\<dots> \<longleftrightarrow> (\<forall>j. i \<le> j \<and> j < length f \<longrightarrow> js_index s j = Some (f ! j))"
        proof -
          have "\<And>j. i \<le> j \<longleftrightarrow> j = i \<or> i + 1 \<le> j" by auto
          then show ?thesis using Some eq by auto
        qed
        finally show ?thesis .
      qed
    qed
  qed
qed

lemma verify_flash_from_cases:
  "verify_flash_from i f s = Inr True \<or> verify_flash_from i f s = Inr False
     \<or> verify_flash_from i f s = Inl TypeError"
proof (induction i f s rule: verify_flash_from.induct)
  case (1 i f s)
  then show ?case
    by (subst (1 2 3) verify_flash_from.simps) (auto split: option.splits)
qed

text \<open>
  Claim C9.  \<^verbatim>\<open>verify_flash(first, second)\<close> returns \<^verbatim>\<open>true\<close> if and only if
  \<open>second\<close> has, at every index below the length of \<open>first\<close>, the byte of \<open>first\<close>.
  Bytes of \<open>second\<close> beyond that length are ignored: \<open>first\<close> followed by anything
  verifies.  A \<open>second\<close> shorter than \<open>first\<close> never verifies: the comparison
  returns \<^verbatim>\<open>false\<close> at a differing byte or, when \<open>second\<close> is a proper prefix of
  \<open>first\<close>, ends in the \<^verbatim>\<open>TypeError\<close> of the console line.
\<close>

theorem verify_flash_compares_prefix:
  "(verify_flash firstArray secondArray = Inr True
      \<longleftrightarrow> (\<forall>i<length firstArray. js_index secondArray i = Some (firstArray ! i)))
   \<and> verify_flash firstArray (firstArray @ extra) = Inr True
   \<and> (length secondArray < length firstArray \<longrightarrow>
        verify_flash firstArray secondArray = Inr False
        \<or> verify_flash firstArray secondArray = Inl TypeError)"
proof (intro conjI impI)
  show iff: "verify_flash firstArray secondArray = Inr True
      \<longleftrightarrow> (\<forall>i<length firstArray. js_index secondArray i = Some (firstArray ! i))"
    for secondArray
    by (simp add: verify_flash_def verify_flash_from_True)
  show "verify_flash firstArray (firstArray @ extra) = Inr True"
    by (simp add: iff js_index_def nth_append)
  assume short: "length secondArray < length firstArray"
  have "js_index secondArray (length secondArray) \<noteq> Some (firstArray ! length secondArray)"
    by (simp add: js_index_def)
  with short have "verify_flash firstArray secondArray \<noteq> Inr True"
    unfolding iff by blast
  then show "verify_flash firstArray secondArray = Inr False
        \<or> verify_flash firstArray secondArray = Inl TypeError"
    using verify_flash_from_cases [of 0 firstArray secondArray]
    by (simp add: verify_flash_def)
qed

theorem verify_flash_compares_prefix_witness:
  "length [0x11 :: byte] < length [0x11, 0x22 :: byte]
   \<and> verify_flash [0x11, 0x22] [0x11] = Inl TypeError
   \<and> verify_flash [0x11, 0x22] ([0x11, 0x22] @ [0x33]) = Inr True"
  using verify_flash_compares_prefix [of "[0x11, 0x22]" "[0x11]" "[0x33]"]
  by (simp add: verify_flash_def verify_flash_from.simps js_index_def)

section \<open>Bytes on the wire\<close>

lemma ToUint8_ToInt32: "ToUint8 (ToInt32 a) = ToUint8 a"
  unfolding ToUint8_def ToInt32_def
  by (simp add: word_of_int_eq_iff take_bit_signed_take_bit)

lemma ToUint8_js_xor: "ToUint8 (js_xor a b) = ToUint8 a XOR ToUint8 b"
  unfolding js_xor_def ToUint8_def ToInt32_def
  by (simp add: word_of_int_eq_iff take_bit_xor take_bit_signed_take_bit flip: of_int_xor_eq)

lemma ToUint8_js_shr:
  "n \<le> 24 \<Longrightarrow> ToUint8 (js_shr a n) = ToUint8 (a div 2 ^ n)"
  unfolding js_shr_def ToUint8_def ToInt32_def
  by (simp add: word_of_int_eq_iff take_bit_drop_bit take_bit_signed_take_bit
           flip: drop_bit_eq_div)

lemma ToUint8_js_and_255: "ToUint8 (js_and a 0xFF) = ToUint8 a"
  unfolding js_and_def ToUint8_def ToInt32_def
proof -
  have m: "(255 :: int) = mask 8" by (simp add: mask_eq_exp_minus_1)
  have "take_bit 8 (signed_take_bit 31 a AND 255) = take_bit 8 a"
    unfolding m by (simp add: take_bit_signed_take_bit flip: take_bit_eq_mask)
  then show "word_of_int (signed_take_bit 31 a AND signed_take_bit 31 255) = (word_of_int a :: byte)"
    by (simp add: word_of_int_eq_iff)
qed

lemma address_frame_bytes:
  "map ToUint8 (address_frame A) =
     [ToUint8 (A div 2 ^ 24), ToUint8 (A div 2 ^ 16), ToUint8 (A div 2 ^ 8), ToUint8 A,
      ToUint8 (A div 2 ^ 24) XOR ToUint8 (A div 2 ^ 16) XOR ToUint8 (A div 2 ^ 8) XOR ToUint8 A]"
  by (simp add: address_frame_def Let_def ToUint8_js_xor ToUint8_js_shr xor.assoc)

lemma big_endian_bytes:
  fixes A :: int
  assumes "0 \<le> A" "A < 2 ^ 32"
  shows "uint (ToUint8 (A div 2 ^ 24)) * 2 ^ 24 + uint (ToUint8 (A div 2 ^ 16)) * 2 ^ 16
          + uint (ToUint8 (A div 2 ^ 8)) * 2 ^ 8 + uint (ToUint8 A) = A"
proof -
  define q1 where "q1 = A div 256"
  define q2 where "q2 = q1 div 256"
  define q3 where "q3 = q2 div 256"
  have d16: "A div 65536 = q2"
    using zdiv_zmult2_eq [of 256 A 256] by (simp add: q1_def q2_def)
  have d24: "A div 16777216 = q3"
    using zdiv_zmult2_eq [of 256 A 65536] d16 by (simp add: q3_def)
  have e0: "A = q1 * 256 + A mod 256" by (simp add: q1_def)
  have e1: "q1 = q2 * 256 + q1 mod 256" by (simp add: q2_def)
  have e2: "q2 = q3 * 256 + q2 mod 256" by (simp add: q3_def)
  have "0 \<le> q3" "q3 < 256"
    using assms d24 [symmetric] by simp_all
  then have e3: "q3 mod 256 = q3" by simp
  have "q3 mod 256 * 16777216 + q2 mod 256 * 65536 + q1 mod 256 * 256 + A mod 256 = A"
    using e0 e1 e2 e3 by linarith
  then show ?thesis
    by (simp add: ToUint8_def uint_word_of_int take_bit_eq_mod d16 d24 q1_def [symmetric])
qed

section \<open>Acknowledgements and the address frame\<close>

lemma verify_response_ACK [simp]: "verify_response ACK (ACK # rest) s = (True, s)"
  by (simp add: verify_response_def js_index_def)

lemma verify_response_other:
  "b \<noteq> ACK \<Longrightarrow> verify_response ACK (b # rest) s
     = (False, upload_procedure_99 (flashingMessage (stm32WrongResponse ACK b) s))"
  by (auto simp: verify_response_def js_index_def)

lemma serial_out_send [simp]:
  "serial_out (send frame n cb s) = serial_out s @ [map ToUint8 frame]"
  by (simp add: send_def)

text \<open>
  Claim C8.  For every 32-bit address \<open>A\<close>, the frame that the write closure hands to
  the port after the acknowledged command is five bytes: the four bytes of \<open>A\<close>, most
  significant first (they reassemble to \<open>A\<close>), and the XOR of those four.  The array is
  built from unmasked shift results and the unmasked address; the truncation to bytes
  happens in \<^verbatim>\<open>send\<close>.
\<close>

theorem address_frame_on_wire:
  assumes "0 \<le> A" and "A < 2 ^ 32" and "write_address s = A"
  shows "serial_out (cb_write_cmd bytesToWrite [ACK] s)
           = serial_out s @ [map ToUint8 (address_frame A)]
         \<and> map ToUint8 (address_frame A)
           = [ToUint8 (A div 2 ^ 24), ToUint8 (A div 2 ^ 16), ToUint8 (A div 2 ^ 8), ToUint8 A,
              ToUint8 (A div 2 ^ 24) XOR ToUint8 (A div 2 ^ 16) XOR ToUint8 (A div 2 ^ 8)
                XOR ToUint8 A]
         \<and> uint (ToUint8 (A div 2 ^ 24)) * 2 ^ 24 + uint (ToUint8 (A div 2 ^ 16)) * 2 ^ 16
             + uint (ToUint8 (A div 2 ^ 8)) * 2 ^ 8 + uint (ToUint8 A) = A"
proof (intro conjI)
  show "serial_out (cb_write_cmd bytesToWrite [ACK] s)
           = serial_out s @ [map ToUint8 (address_frame A)]"
    using assms(3) by (simp add: cb_write_cmd_def)
  show "map ToUint8 (address_frame A)
           = [ToUint8 (A div 2 ^ 24), ToUint8 (A div 2 ^ 16), ToUint8 (A div 2 ^ 8), ToUint8 A,
              ToUint8 (A div 2 ^ 24) XOR ToUint8 (A div 2 ^ 16) XOR ToUint8 (A div 2 ^ 8)
                XOR ToUint8 A]"
    by (rule address_frame_bytes)
  show "uint (ToUint8 (A div 2 ^ 24)) * 2 ^ 24 + uint (ToUint8 (A div 2 ^ 16)) * 2 ^ 16
             + uint (ToUint8 (A div 2 ^ 8)) * 2 ^ 8 + uint (ToUint8 A) = A"
    using assms(1,2) by (rule big_endian_bytes)
qed

theorem address_frame_on_wire_witness:
  "(0 :: int) \<le> 0xA0001234 \<and> (0xA0001234 :: int) < 2 ^ 32
   \<and> write_address (STM32_protocol\<lparr>write_address := 0xA0001234\<rparr>) = 0xA0001234
   \<and> address_frame 0xA0001234 ! 0 = - 96
   \<and> serial_out (cb_write_cmd 256 [ACK] (STM32_protocol\<lparr>write_address := 0xA0001234\<rparr>))
       = [[0xA0, 0x00, 0x12, 0x34, 0x86]]"
  using address_frame_on_wire [of "0xA0001234" "STM32_protocol\<lparr>write_address := 0xA0001234\<rparr>" 256]
  by (simp add: STM32_protocol_def ToUint8_def address_frame_def js_shr_def ToInt32_def)

section \<open>Serving a pending read\<close>

lemma read_serves_pending:
  assumes "bytesToRead s = n" and "n \<noteq> 0" and "read_callback s = Some cb"
    and "n \<le> length (receive_buffer s @ dat)"
  shows "read dat s = run_callback cb (take n (receive_buffer s @ dat))
           (s\<lparr>receive_buffer := drop n (receive_buffer s @ dat), bytesToRead := 0\<rparr>)"
  using assms by (simp add: read_def Let_def)

lemma read_after_send:
  assumes "n \<noteq> 0" and "n \<le> length dat"
  shows "read dat (send frame n cb s) = run_callback cb (take n dat)
           ((send frame n cb s)\<lparr>receive_buffer := drop n dat, bytesToRead := 0\<rparr>)"
  using assms by (simp add: read_def Let_def send_def)

lemmas session_defs = connect_def initialize_def STM32_protocol_def upload_procedure_1_def
  upload_procedure_2_def upload_procedure_99_def step_def read_def timeout_tick_def
  initialize_mcu_tick_def send_def enter_def flashingMessage_def cb_init_def js_index_def
  ACK_def NACK_def Let_def ToUint8_def

section \<open>The watchdog (step 99 on timeout)\<close>

text \<open>
  Claim C6 says that the watchdog ends the session only when two consecutive ticks both
  find \<open>alive\<close> false, so that a single tick finding it false would not.  In the run
  below the first watchdog tick finds the flag true (the GET command was just sent) and
  clears it; the second is the first to find it false, and it ends the session.
\<close>

theorem watchdog_two_ticks_counterexample:
  "upload_process_alive (run [TickInitializeMcu, Receive [0x79]] (connect [] 0 False))
   \<and> \<not> upload_process_alive
         (run [TickInitializeMcu, Receive [0x79], TickTimeout] (connect [] 0 False))
   \<and> procedure_calls
         (run [TickInitializeMcu, Receive [0x79], TickTimeout] (connect [] 0 False)) = [1, 2]
   \<and> procedure_calls
         (run [TickInitializeMcu, Receive [0x79], TickTimeout, TickTimeout]
            (connect [] 0 False)) = [1, 2, 99]
   \<and> last (messages
         (run [TickInitializeMcu, Receive [0x79], TickTimeout, TickTimeout]
            (connect [] 0 False))) = stm32TimedOut"
  by (simp add: session_defs)

text \<open>
  Claim C6, amended.  Every \<^verbatim>\<open>send\<close> sets \<open>alive\<close>.  A watchdog tick that finds
  \<open>alive\<close> true clears it and does nothing else.  A watchdog tick that finds
  \<open>alive\<close> false forces step 99 with the timed-out message: the first tick that finds
  the flag false ends the session.  After a send, that is the second of two ticks with
  no send in between.
\<close>

theorem watchdog_tick:
  assumes "interval_timeout s" and "\<not> hung s"
  shows "upload_process_alive (send frame n cb s)
   \<and> (upload_process_alive s \<longrightarrow>
        step TickTimeout s = s\<lparr>upload_process_alive := False\<rparr>)
   \<and> (\<not> upload_process_alive s \<longrightarrow>
        procedure_calls (step TickTimeout s) = procedure_calls s @ [99]
        \<and> messages (step TickTimeout s) = messages s @ [stm32TimedOut]
        \<and> \<not> interval_timeout (step TickTimeout s)
        \<and> \<not> connectionId (step TickTimeout s)
        \<and> serial_out (step TickTimeout s) = serial_out s)
   \<and> procedure_calls (run [TickTimeout, TickTimeout] (send frame n cb s))
        = procedure_calls s @ [99]"
  using assms
  by (simp add: step_def timeout_tick_def upload_procedure_99_def enter_def
        flashingMessage_def send_def Let_def)

theorem watchdog_tick_witness:
  "interval_timeout (connect [] 0 False) \<and> \<not> hung (connect [] 0 False)
   \<and> \<not> upload_process_alive (connect [] 0 False)
   \<and> procedure_calls (step TickTimeout (connect [] 0 False)) = [1, 99]
   \<and> messages (step TickTimeout (connect [] 0 False))
        = [stm32ContactingBootloader, stm32TimedOut]"
  using watchdog_tick [of "connect [] 0 False" "[]" 0 CbInit]
  by (simp add: session_defs)

section \<open>Properties of step 1\<close>

lemma tick_unanswered:
  assumes "interval_initialize_mcu s" and "\<not> hung s" and "sendCounter s \<le> 3"
  shows "step TickInitializeMcu s
     = (send [0x7F] 1 CbInit s)\<lparr>sendCounter := sendCounter s + 1\<rparr>"
  using assms by (simp add: step_def initialize_mcu_tick_def Let_def send_def)

lemma tick_removed:
  "\<not> interval_initialize_mcu s \<Longrightarrow> run (replicate m TickInitializeMcu) s = s"
  by (induction m) (simp_all add: step_def)

text \<open>
  Claim C2 says that the session gives up after exactly four unanswered probes and sends
  no fifth.  With a silent device the session is still probing after four calls of the
  interval, and the fifth call transmits a fifth probe.
\<close>

theorem autobaud_five_probes_counterexample:
  "procedure_calls (run (replicate 4 TickInitializeMcu) (connect [] 0 False)) = [1]
   \<and> interval_initialize_mcu (run (replicate 4 TickInitializeMcu) (connect [] 0 False))
   \<and> serial_out (run (replicate 5 TickInitializeMcu) (connect [] 0 False))
        = [[0x7F], [0x7F], [0x7F], [0x7F], [0x7F]]"
  by (simp add: session_defs numeral_eq_Suc)

text \<open>
  Claim C2, amended.  Each call of the auto-baud interval transmits the probe byte
  \<open>0x7F\<close>.  If no response byte ever arrives, the first four calls only transmit the
  probe; the fifth call transmits a fifth probe and then gives up in the same call: step
  99 with the message that the bootloader did not respond, and the port closed.  No
  sixth probe is transmitted, however often the interval would fire.
\<close>

theorem autobaud_gives_up_on_fifth_tick:
  "serial_out (run (replicate 4 TickInitializeMcu) (connect segments bytesTotal eraseChip))
      = replicate 4 [0x7F]
   \<and> procedure_calls
        (run (replicate 4 TickInitializeMcu) (connect segments bytesTotal eraseChip)) = [1]
   \<and> serial_out (run (replicate 5 TickInitializeMcu) (connect segments bytesTotal eraseChip))
      = replicate 5 [0x7F]
   \<and> procedure_calls
        (run (replicate 5 TickInitializeMcu) (connect segments bytesTotal eraseChip)) = [1, 99]
   \<and> messages (run (replicate 5 TickInitializeMcu) (connect segments bytesTotal eraseChip))
      = [stm32ContactingBootloader, stm32ResponseBootloaderFailed]
   \<and> \<not> connectionId
         (run (replicate 5 TickInitializeMcu) (connect segments bytesTotal eraseChip))
   \<and> serial_out
        (run (replicate (5 + m) TickInitializeMcu) (connect segments bytesTotal eraseChip))
      = replicate 5 [0x7F]"
proof -
  let ?c = "connect segments bytesTotal eraseChip"
  have five: "\<not> interval_initialize_mcu (run (replicate 5 TickInitializeMcu) ?c)"
    by (simp add: session_defs numeral_eq_Suc)
  have "run (replicate (5 + m) TickInitializeMcu) ?c
      = run (replicate m TickInitializeMcu) (run (replicate 5 TickInitializeMcu) ?c)"
    by (simp add: numeral_eq_Suc)
  then have more: "run (replicate (5 + m) TickInitializeMcu) ?c
      = run (replicate 5 TickInitializeMcu) ?c"
    using tick_removed [OF five] by simp
  show ?thesis
    unfolding more by (simp add: session_defs numeral_eq_Suc)
qed

section \<open>Properties of the global erase\<close>

lemma ToUint8_numerals [simp]:
  "ToUint8 0 = 0" "ToUint8 (numeral k) = numeral k"
  by (simp_all add: ToUint8_def)

lemma read_erase_command:
  "read [b] (send frame 1 cb s)
     = run_callback cb [b] ((send frame 1 cb s)\<lparr>receive_buffer := [], bytesToRead := 0\<rparr>)"
  using read_after_send [of 1 "[b]" frame cb s] by simp

lemma upload_procedure_99_fields [simp]:
  "serial_out (upload_procedure_99 s) = serial_out s"
  "procedure_calls (upload_procedure_99 s) = procedure_calls s @ [99]"
  "bytesToRead (upload_procedure_99 s) = bytesToRead s"
  "interval_initialize_mcu (upload_procedure_99 s) = interval_initialize_mcu s"
  "\<not> interval_timeout (upload_procedure_99 s)"
  "useExtendedErase (upload_procedure_99 s) = useExtendedErase s"
  "read_callback (upload_procedure_99 s) = read_callback s"
  "hung (upload_procedure_99 s) = hung s"
  by (simp_all add: upload_procedure_99_def enter_def Let_def)

lemma flashingMessage_fields [simp]:
  "serial_out (flashingMessage m s) = serial_out s"
  "procedure_calls (flashingMessage m s) = procedure_calls s"
  "bytesToRead (flashingMessage m s) = bytesToRead s"
  "interval_initialize_mcu (flashingMessage m s) = interval_initialize_mcu s"
  "interval_timeout (flashingMessage m s) = interval_timeout s"
  "useExtendedErase (flashingMessage m s) = useExtendedErase s"
  "read_callback (flashingMessage m s) = read_callback s"
  "messages (flashingMessage m s) = messages s @ [m]"
  "hung (flashingMessage m s) = hung s"
  by (simp_all add: flashingMessage_def)

lemma erase_exchange:
  fixes cmd frame :: "int list" and s0 :: session and cb :: callback
  assumes cb: "\<And>x. run_callback cb [ACK] x = send frame 1 CbEraseFrame x"
  defines "s5 \<equiv> read [ACK] (send cmd 1 cb s0)"
  shows "serial_out s5 = serial_out s0 @ [map ToUint8 cmd, map ToUint8 frame]"
    and "bytesToRead s5 = 1"
    and "read [ACK] s5 = upload_procedure_5 (s5\<lparr>receive_buffer := [], bytesToRead := 0\<rparr>)"
    and "b \<noteq> ACK \<Longrightarrow> serial_out (read [b] s5) = serial_out s5"
    and "b \<noteq> ACK \<Longrightarrow> procedure_calls (read [b] s5) = procedure_calls s0 @ [99]"
proof -
  have s5: "s5 = send frame 1 CbEraseFrame
                   ((send cmd 1 cb s0)\<lparr>receive_buffer := [], bytesToRead := 0\<rparr>)"
    unfolding s5_def read_erase_command cb ..
  have next_byte: "read [c] s5
      = cb_erase_frame [c] (s5\<lparr>receive_buffer := [], bytesToRead := 0\<rparr>)" for c
    by (subst (1 2) s5, unfold read_erase_command) simp
  show "serial_out s5 = serial_out s0 @ [map ToUint8 cmd, map ToUint8 frame]"
    by (subst s5) (simp add: send_def)
  show "bytesToRead s5 = 1"
    by (subst s5) (simp add: send_def)
  show "read [ACK] s5 = upload_procedure_5 (s5\<lparr>receive_buffer := [], bytesToRead := 0\<rparr>)"
    unfolding next_byte by (simp add: cb_erase_frame_def)
  have pc: "procedure_calls s5 = procedure_calls s0"
    by (subst s5) (simp add: send_def)
  show "serial_out (read [b] s5) = serial_out s5" if "b \<noteq> ACK"
    unfolding next_byte using that by (simp add: cb_erase_frame_def verify_response_other)
  show "procedure_calls (read [b] s5) = procedure_calls s0 @ [99]" if "b \<noteq> ACK"
    unfolding next_byte using that pc by (simp add: cb_erase_frame_def verify_response_other)
qed

text \<open>
  Claim C7.  With \<^verbatim>\<open>erase_chip\<close> set, step 4 sends the command frame of the dialect
  and awaits one byte.  On ACK it sends exactly \<open>[0xFF, 0xFF, 0x00]\<close> in the extended
  dialect and exactly \<open>[0xFF, 0x00]\<close> in the classic dialect, and again awaits one
  byte: ACK starts step 5, any other byte ends the session in step 99 with nothing more
  sent.
\<close>

theorem global_erase_frames:
  assumes "erase_chip s"
  shows "serial_out (upload_procedure_4 s)
           = serial_out s @ [if useExtendedErase s then [0x44, 0xBB] else [0x43, 0xBC]]
   \<and> bytesToRead (upload_procedure_4 s) = 1
   \<and> serial_out (read [ACK] (upload_procedure_4 s))
           = serial_out s @ (if useExtendedErase s then [[0x44, 0xBB], [0xFF, 0xFF, 0x00]]
                             else [[0x43, 0xBC], [0xFF, 0x00]])
   \<and> bytesToRead (read [ACK] (upload_procedure_4 s)) = 1
   \<and> read [ACK] (read [ACK] (upload_procedure_4 s))
           = upload_procedure_5
               ((read [ACK] (upload_procedure_4 s))\<lparr>receive_buffer := [], bytesToRead := 0\<rparr>)
   \<and> (b \<noteq> ACK \<longrightarrow>
        serial_out (read [b] (read [ACK] (upload_procedure_4 s)))
           = serial_out (read [ACK] (upload_procedure_4 s))
        \<and> procedure_calls (read [b] (read [ACK] (upload_procedure_4 s)))
           = procedure_calls s @ [4, 99])"
proof (cases "useExtendedErase s")
  case True
  have s4: "upload_procedure_4 s
      = send [0x44, 0xBB] 1 CbExtGlobalCmd (flashingMessage stm32GlobalEraseExtended (enter 4 s))"
    using assms True by (simp add: upload_procedure_4_def enter_def Let_def)
  have cb: "run_callback CbExtGlobalCmd [ACK] x = send [0xFF, 0xFF, 0x00] 1 CbEraseFrame x" for x
    by (simp add: cb_ext_global_cmd_def)
  note ex = erase_exchange [where cb = CbExtGlobalCmd and frame = "[0xFF, 0xFF, 0x00]"
      and cmd = "[0x44, 0xBB]"
      and ?s0.0 = "flashingMessage stm32GlobalEraseExtended (enter 4 s)", OF cb, folded s4]
  have first: "serial_out (upload_procedure_4 s) = serial_out s @ [[0x44, 0xBB]]"
      "bytesToRead (upload_procedure_4 s) = 1"
    unfolding s4 by (simp_all add: send_def enter_def)
  show ?thesis
    using True first ex(1,2) ex(3) ex(4,5) [of b]
    by (simp add: enter_def)
next
  case False
  have s4: "upload_procedure_4 s
      = send [0x43, 0xBC] 1 CbGlobalCmd (flashingMessage stm32GlobalErase (enter 4 s))"
    using assms False by (simp add: upload_procedure_4_def enter_def Let_def)
  have cb: "run_callback CbGlobalCmd [ACK] x = send [0xFF, 0x00] 1 CbEraseFrame x" for x
    by (simp add: cb_global_cmd_def)
  note ex = erase_exchange [where cb = CbGlobalCmd and frame = "[0xFF, 0x00]"
      and cmd = "[0x43, 0xBC]"
      and ?s0.0 = "flashingMessage stm32GlobalErase (enter 4 s)", OF cb, folded s4]
  have first: "serial_out (upload_procedure_4 s) = serial_out s @ [[0x43, 0xBC]]"
      "bytesToRead (upload_procedure_4 s) = 1"
    unfolding s4 by (simp_all add: send_def enter_def)
  show ?thesis
    using False first ex(1,2) ex(3) ex(4,5) [of b]
    by (simp add: enter_def)
qed

theorem global_erase_frames_witness:
  "erase_chip (STM32_protocol\<lparr>erase_chip := True, useExtendedErase := True\<rparr>)
   \<and> serial_out (read [ACK] (upload_procedure_4
         (STM32_protocol\<lparr>erase_chip := True, useExtendedErase := True\<rparr>)))
       = [[0x44, 0xBB], [0xFF, 0xFF, 0x00]]
   \<and> procedure_calls (read [NACK] (read [ACK] (upload_procedure_4
         (STM32_protocol\<lparr>erase_chip := True, useExtendedErase := True\<rparr>)))) = [4, 99]"
  using global_erase_frames
          [of "STM32_protocol\<lparr>erase_chip := True, useExtendedErase := True\<rparr>" NACK]
  by (simp add: STM32_protocol_def ACK_def NACK_def)

section \<open>Properties of steps 2 and 3\<close>

lemma signature_of_bytes:
  "signature_of (hi # lo # rest) = uint hi * 256 + uint lo"
proof -
  have hi: "0 \<le> uint hi" "uint hi < 256" and lo: "0 \<le> uint lo" "uint lo < 256"
    using uint_bounded [of hi] uint_bounded [of lo] by simp_all
  have small: "signed_take_bit 31 k = k" if "0 \<le> k" "k < 65536" for k :: int
    using that by (simp add: signed_take_bit_int_eq_self)
  have shifted: "push_bit 8 (uint hi) = uint hi * 256"
    by (simp add: push_bit_eq_mult)
  have tb: "take_bit 8 (uint lo) = uint lo"
    using lo by (simp add: take_bit_int_eq_self)
  have "take_bit 8 (uint lo) OR push_bit 8 (uint hi)
      = take_bit 8 (uint lo) + push_bit 8 (uint hi)"
    using concat_bit_eq [of 8 "uint lo" "uint hi"] unfolding concat_bit_def .
  then have "push_bit 8 (uint hi) OR uint lo = uint hi * 256 + uint lo"
    unfolding tb shifted by (simp add: or.commute)
  moreover have "signed_take_bit 31 (uint hi) = uint hi" "signed_take_bit 31 (uint lo) = uint lo"
      "signed_take_bit 31 (uint hi * 256) = uint hi * 256"
    using hi lo by (simp_all add: small)
  ultimately show ?thesis
    by (simp add: signature_of_def js_or_def js_shl_def ToInt32_def js_number_def js_index_def
          shifted)
qed

lemma quiescent_step:
  assumes "quiescent s"
  shows "quiescent (step e s)" and "serial_out (step e s) = serial_out s"
    and "procedure_calls (step e s) = procedure_calls s"
proof -
  have r: "read dat s = s\<lparr>receive_buffer := receive_buffer s @ dat\<rparr>" for dat
    using assms by (simp add: quiescent_def read_def Let_def)
  have st: "step e s = (case e of
                          Receive dat \<Rightarrow>
                            if hung s then s else s\<lparr>receive_buffer := receive_buffer s @ dat\<rparr>
                        | _ \<Rightarrow> s)"
    using assms by (simp add: step_def r quiescent_def split: event.splits)
  show "quiescent (step e s)"
    unfolding st using assms by (simp add: quiescent_def split: event.splits)
  show "serial_out (step e s) = serial_out s"
    unfolding st by (simp split: event.splits)
  show "procedure_calls (step e s) = procedure_calls s"
    unfolding st by (simp split: event.splits)
qed

lemma quiescent_run:
  "quiescent s \<Longrightarrow>
     serial_out (run es s) = serial_out s \<and> procedure_calls (run es s) = procedure_calls s"
  by (induction es arbitrary: s) (simp_all add: quiescent_step)

lemma verify_chip_signature_fields [simp]:
  "serial_out (snd (verify_chip_signature sig s)) = serial_out s"
  "procedure_calls (snd (verify_chip_signature sig s)) = procedure_calls s"
  "bytesToRead (snd (verify_chip_signature sig s)) = bytesToRead s"
  "interval_initialize_mcu (snd (verify_chip_signature sig s)) = interval_initialize_mcu s"
  "useExtendedErase (snd (verify_chip_signature sig s)) = useExtendedErase s"
  "read_callback (snd (verify_chip_signature sig s)) = read_callback s"
  "hex_bytes_total (snd (verify_chip_signature sig s)) = hex_bytes_total s"
  by (simp_all add: verify_chip_signature_def Let_def flashingMessage_def)

lemma cb_id_block_cases:
  "cb_id_block dat s =
     (if fst (verify_chip_signature (signature_of dat) s)
      then upload_procedure_4 (snd (verify_chip_signature (signature_of dat) s))
      else upload_procedure_99 (snd (verify_chip_signature (signature_of dat) s)))"
  by (simp add: cb_id_block_def Let_def split: prod.splits)

lemma upload_procedure_4_calls [simp]:
  "procedure_calls (upload_procedure_4 s) = procedure_calls s @ [4]"
  by (simp add: upload_procedure_4_def Let_def enter_def send_def flashingMessage_def)

lemma verify_chip_signature_fst:
  "fst (verify_chip_signature sig s) \<longleftrightarrow>
     0 < available_flash_size (snd (verify_chip_signature sig s))
     \<and> hex_bytes_total s < available_flash_size (snd (verify_chip_signature sig s))"
  by (simp add: verify_chip_signature_def Let_def flashingMessage_def)

lemma verify_chip_signature_geometry:
  "available_flash_size (snd (verify_chip_signature sig s))
     = (if sig = 0x410 then 131072 else if sig = 0x414 \<or> sig = 0x422 then 0x40000
        else available_flash_size s)"
  by (simp add: verify_chip_signature_def Let_def flashingMessage_def)

lemma verify_chip_signature_messages:
  "messages (snd (verify_chip_signature sig s))
     = (if fst (verify_chip_signature sig s) then messages s
        else if 0 < available_flash_size (snd (verify_chip_signature sig s))
        then messages s @ [LogHexBiggerThanFlash (hex_bytes_total s)
                             (available_flash_size (snd (verify_chip_signature sig s)))]
        else messages s @ [LogChipNotRecognized sig])"
  by (simp add: verify_chip_signature_def Let_def flashingMessage_def)

text \<open>
  What the chip verification does in any state.  \<^verbatim>\<open>verify_chip_signature\<close> succeeds
  if and only if, after the \<^verbatim>\<open>switch\<close>, \<open>available_flash_size\<close> is positive and
  \<open>hex.bytes_total\<close> is strictly below it.  An image exactly as large as the flash is
  refused with the console line for an image bigger than the flash; a flash size of 0 is
  refused with the line for a chip that is not recognised.  A product id other than
  \<open>0x410\<close>, \<open>0x414\<close> and \<open>0x422\<close> leaves the size as it was, which is 0 only
  if it was 0 before.  On success the closure of step 3 enters step 4.  On either refusal
  it enters step 99, which closes the port; no frame is sent then or on any later event.
\<close>

lemma chip_verification:
  assumes "bytesToRead s = 0" and "\<not> interval_initialize_mcu s"
  shows "(fst (verify_chip_signature sig s) \<longleftrightarrow>
            0 < available_flash_size (snd (verify_chip_signature sig s))
            \<and> hex_bytes_total s < available_flash_size (snd (verify_chip_signature sig s)))
   \<and> (hex_bytes_total s = available_flash_size (snd (verify_chip_signature sig s))
        \<and> 0 < available_flash_size (snd (verify_chip_signature sig s)) \<longrightarrow>
        \<not> fst (verify_chip_signature sig s)
        \<and> last (messages (snd (verify_chip_signature sig s)))
            = LogHexBiggerThanFlash (hex_bytes_total s) (hex_bytes_total s))
   \<and> (available_flash_size (snd (verify_chip_signature sig s)) = 0 \<longrightarrow>
        \<not> fst (verify_chip_signature sig s)
        \<and> last (messages (snd (verify_chip_signature sig s))) = LogChipNotRecognized sig)
   \<and> (available_flash_size s = 0 \<and> sig \<noteq> 0x410 \<and> sig \<noteq> 0x414 \<and> sig \<noteq> 0x422 \<longrightarrow>
        available_flash_size (snd (verify_chip_signature sig s)) = 0)
   \<and> (signature_of dat = sig \<and> fst (verify_chip_signature sig s) \<longrightarrow>
        procedure_calls (cb_id_block dat s) = procedure_calls s @ [4])
   \<and> (signature_of dat = sig \<and> \<not> fst (verify_chip_signature sig s) \<longrightarrow>
        procedure_calls (run es (cb_id_block dat s)) = procedure_calls s @ [99]
        \<and> serial_out (run es (cb_id_block dat s)) = serial_out s
        \<and> \<not> connectionId (cb_id_block dat s))"
proof (intro conjI impI)
  show "fst (verify_chip_signature sig s) \<longleftrightarrow>
            0 < available_flash_size (snd (verify_chip_signature sig s))
            \<and> hex_bytes_total s < available_flash_size (snd (verify_chip_signature sig s))"
    by (rule verify_chip_signature_fst)
  show "available_flash_size (snd (verify_chip_signature sig s)) = 0"
    if "available_flash_size s = 0 \<and> sig \<noteq> 0x410 \<and> sig \<noteq> 0x414 \<and> sig \<noteq> 0x422"
    using that by (simp add: verify_chip_signature_geometry)
  show "procedure_calls (cb_id_block dat s) = procedure_calls s @ [4]"
    if "signature_of dat = sig \<and> fst (verify_chip_signature sig s)"
    using that by (simp add: cb_id_block_cases)
next
  assume big: "hex_bytes_total s = available_flash_size (snd (verify_chip_signature sig s))
        \<and> 0 < available_flash_size (snd (verify_chip_signature sig s))"
  then show no: "\<not> fst (verify_chip_signature sig s)"
    unfolding verify_chip_signature_fst by simp
  show "last (messages (snd (verify_chip_signature sig s)))
            = LogHexBiggerThanFlash (hex_bytes_total s) (hex_bytes_total s)"
    unfolding verify_chip_signature_messages using no big by simp
next
  assume none: "available_flash_size (snd (verify_chip_signature sig s)) = 0"
  then show no: "\<not> fst (verify_chip_signature sig s)"
    unfolding verify_chip_signature_fst by simp
  show "last (messages (snd (verify_chip_signature sig s))) = LogChipNotRecognized sig"
    unfolding verify_chip_signature_messages using no none by simp
next
  assume fail: "signature_of dat = sig \<and> \<not> fst (verify_chip_signature sig s)"
  then have ab: "cb_id_block dat s = upload_procedure_99 (snd (verify_chip_signature sig s))"
    by (simp add: cb_id_block_cases)
  have q: "quiescent (cb_id_block dat s)"
    unfolding ab using assms by (simp add: quiescent_def)
  show "procedure_calls (run es (cb_id_block dat s)) = procedure_calls s @ [99]"
    using quiescent_run [OF q, of es] by (simp add: ab)
  show "serial_out (run es (cb_id_block dat s)) = serial_out s"
    using quiescent_run [OF q, of es] by (simp add: ab)
  show "\<not> connectionId (cb_id_block dat s)"
    unfolding ab by (simp add: upload_procedure_99_def Let_def)
qed

lemma chip_verification_at_full_flash:
  "bytesToRead (STM32_protocol\<lparr>hex_bytes_total := 131072\<rparr>) = 0
   \<and> \<not> interval_initialize_mcu (STM32_protocol\<lparr>hex_bytes_total := 131072\<rparr>)
   \<and> signature_of [0x04, 0x10, 0x79] = 0x410
   \<and> \<not> fst (verify_chip_signature 0x410 (STM32_protocol\<lparr>hex_bytes_total := 131072\<rparr>))
   \<and> hex_bytes_total (STM32_protocol\<lparr>hex_bytes_total := 131072\<rparr>)
       = available_flash_size
           (snd (verify_chip_signature 0x410 (STM32_protocol\<lparr>hex_bytes_total := 131072\<rparr>)))
   \<and> procedure_calls
        (run [Receive [0x79]]
           (cb_id_block [0x04, 0x10, 0x79] (STM32_protocol\<lparr>hex_bytes_total := 131072\<rparr>)))
       = [99]
   \<and> serial_out
        (run [Receive [0x79]]
           (cb_id_block [0x04, 0x10, 0x79] (STM32_protocol\<lparr>hex_bytes_total := 131072\<rparr>)))
       = []"
  using chip_verification
          [of "STM32_protocol\<lparr>hex_bytes_total := 131072\<rparr>" "0x410" "[0x04, 0x10, 0x79]"
              "[Receive [0x79]]"]
  by (simp add: signature_of_bytes verify_chip_signature_fst verify_chip_signature_geometry)
     (simp add: STM32_protocol_def)

section \<open>The erase dialect after step 2\<close>

lemma late_callback_simps [simp]:
  "late_callback None" "\<not> late_callback (Some CbInit)" "\<not> late_callback (Some CbGetAck)"
  "\<not> late_callback (Some CbGetBlock)" "late_callback (Some CbIdAck)"
  "late_callback (Some CbIdBlock)" "late_callback (Some CbExtGlobalCmd)"
  "late_callback (Some CbExtLocalCmd)" "late_callback (Some CbGlobalCmd)"
  "late_callback (Some CbLocalCmd)" "late_callback (Some CbEraseFrame)"
  "late_callback (Some (CbWriteCmd n))" "late_callback (Some (CbWriteAddr n))"
  "late_callback (Some CbWriteData)" "late_callback (Some CbGoCmd)"
  by (simp_all add: late_callback_def)

lemma send_fields [simp]:
  "useExtendedErase (send frame n cb s) = useExtendedErase s"
  "interval_initialize_mcu (send frame n cb s) = interval_initialize_mcu s"
  "read_callback (send frame n cb s) = Some cb"
  "bytesToRead (send frame n cb s) = n"
  "procedure_calls (send frame n cb s) = procedure_calls s"
  "hung (send frame n cb s) = hung s"
  by (simp_all add: send_def)

lemma throw_fields [simp]:
  "useExtendedErase (throw e s) = useExtendedErase s"
  "interval_initialize_mcu (throw e s) = interval_initialize_mcu s"
  "read_callback (throw e s) = read_callback s"
  "serial_out (throw e s) = serial_out s"
  "procedure_calls (throw e s) = procedure_calls s"
  by (simp_all add: throw_def)

lemma enter_fields [simp]:
  "useExtendedErase (enter n s) = useExtendedErase s"
  "interval_initialize_mcu (enter n s) = interval_initialize_mcu s"
  "read_callback (enter n s) = read_callback s"
  "serial_out (enter n s) = serial_out s"
  "procedure_calls (enter n s) = procedure_calls s @ [n]"
  by (simp_all add: enter_def)

lemma verify_response_fields [simp]:
  "useExtendedErase (snd (verify_response v d s)) = useExtendedErase s"
  "interval_initialize_mcu (snd (verify_response v d s)) = interval_initialize_mcu s"
  "read_callback (snd (verify_response v d s)) = read_callback s"
  by (simp_all add: verify_response_def split: option.splits)

lemma upload_procedure_6_fields [simp]:
  "useExtendedErase (upload_procedure_6 s) = useExtendedErase s"
  "interval_initialize_mcu (upload_procedure_6 s) = interval_initialize_mcu s"
  "read_callback (upload_procedure_6 s) = read_callback s"
  by (simp_all add: upload_procedure_6_def)

text \<open>A closure that checks for ACK and then continues with \<open>g\<close>.\<close>

lemma on_ack:
  "(let (ok, s1) = verify_response ACK reply s in if ok then g s1 else s1)
     = (if fst (verify_response ACK reply s) then g (snd (verify_response ACK reply s))
        else snd (verify_response ACK reply s))"
  by (simp split: prod.splits)

lemma cb_go_cmd_fields [simp]:
  "useExtendedErase (cb_go_cmd reply s) = useExtendedErase s"
  "interval_initialize_mcu (cb_go_cmd reply s) = interval_initialize_mcu s"
  "read_callback (cb_go_cmd reply s) = read_callback s"
  by (simp_all add: cb_go_cmd_def on_ack)

lemma write_next_fields [simp]:
  "useExtendedErase (write_next s) = useExtendedErase s"
  "interval_initialize_mcu (write_next s) = interval_initialize_mcu s"
  "late_callback (read_callback s) \<Longrightarrow> late_callback (read_callback (write_next s))"
proof -
  have "useExtendedErase (write_next s) = useExtendedErase s
      \<and> interval_initialize_mcu (write_next s) = interval_initialize_mcu s
      \<and> (late_callback (read_callback s) \<longrightarrow> late_callback (read_callback (write_next s)))"
  proof (induction s rule: write_next.induct)
    case (1 s)
    show ?case
    proof (cases "js_index (hex_data s) (flashing_block s)")
      case None
      then show ?thesis by (subst (1 2 3) write_next.simps) simp
    next
      case (Some seg)
      show ?thesis
      proof (cases "bytes_flashed s < bytes seg")
        case True
        with Some show ?thesis by (subst (1 2 3) write_next.simps) (simp add: Let_def)
      next
        case nf: False
        show ?thesis
        proof (cases "int (flashing_block s) < blocks s")
          case False
          with Some nf show ?thesis by (subst (1 2 3) write_next.simps) simp
        next
          case more: True
          show ?thesis
          proof (cases "js_index (hex_data s) (flashing_block s + 1)")
            case None
            with Some nf more show ?thesis by (subst (1 2 3) write_next.simps) simp
          next
            case seg': (Some seg')
            from "1.IH" [OF Some nf more seg'] Some nf more seg'
            show ?thesis by (subst (1 2 3) write_next.simps) simp
          qed
        qed
      qed
    qed
  qed
  then show "useExtendedErase (write_next s) = useExtendedErase s"
    "interval_initialize_mcu (write_next s) = interval_initialize_mcu s"
    "late_callback (read_callback s) \<Longrightarrow> late_callback (read_callback (write_next s))"
    by simp_all
qed


lemma cb_write_data_fields [simp]:
  "useExtendedErase (cb_write_data reply s) = useExtendedErase s"
  "interval_initialize_mcu (cb_write_data reply s) = interval_initialize_mcu s"
  "late_callback (read_callback s) \<Longrightarrow> late_callback (read_callback (cb_write_data reply s))"
  by (simp_all add: cb_write_data_def on_ack)

lemma cb_write_addr_fields [simp]:
  "useExtendedErase (cb_write_addr n reply s) = useExtendedErase s"
  "interval_initialize_mcu (cb_write_addr n reply s) = interval_initialize_mcu s"
  "late_callback (read_callback s) \<Longrightarrow> late_callback (read_callback (cb_write_addr n reply s))"
  by (simp_all add: cb_write_addr_def Let_def split_beta)

lemma cb_write_cmd_fields [simp]:
  "useExtendedErase (cb_write_cmd n reply s) = useExtendedErase s"
  "interval_initialize_mcu (cb_write_cmd n reply s) = interval_initialize_mcu s"
  "late_callback (read_callback s) \<Longrightarrow> late_callback (read_callback (cb_write_cmd n reply s))"
  by (simp_all add: cb_write_cmd_def on_ack)

lemma upload_procedure_5_fields [simp]:
  "useExtendedErase (upload_procedure_5 s) = useExtendedErase s"
  "interval_initialize_mcu (upload_procedure_5 s) = interval_initialize_mcu s"
  "late_callback (read_callback s) \<Longrightarrow> late_callback (read_callback (upload_procedure_5 s))"
  by (simp_all add: upload_procedure_5_def Let_def split: option.splits)

lemma cb_erase_frame_fields [simp]:
  "useExtendedErase (cb_erase_frame reply s) = useExtendedErase s"
  "interval_initialize_mcu (cb_erase_frame reply s) = interval_initialize_mcu s"
  "late_callback (read_callback s) \<Longrightarrow> late_callback (read_callback (cb_erase_frame reply s))"
  by (simp_all add: cb_erase_frame_def on_ack)

lemma local_erase_fields [simp]:
  "useExtendedErase (local_erase frame s) = useExtendedErase s"
  "interval_initialize_mcu (local_erase frame s) = interval_initialize_mcu s"
  "late_callback (read_callback s) \<Longrightarrow> late_callback (read_callback (local_erase frame s))"
  by (simp_all add: local_erase_def Let_def split: option.splits)

lemma erase_command_fields [simp]:
  "useExtendedErase (cb_ext_global_cmd reply s) = useExtendedErase s"
  "interval_initialize_mcu (cb_ext_global_cmd reply s) = interval_initialize_mcu s"
  "late_callback (read_callback s) \<Longrightarrow> late_callback (read_callback (cb_ext_global_cmd reply s))"
  "useExtendedErase (cb_ext_local_cmd reply s) = useExtendedErase s"
  "interval_initialize_mcu (cb_ext_local_cmd reply s) = interval_initialize_mcu s"
  "late_callback (read_callback s) \<Longrightarrow> late_callback (read_callback (cb_ext_local_cmd reply s))"
  "useExtendedErase (cb_global_cmd reply s) = useExtendedErase s"
  "interval_initialize_mcu (cb_global_cmd reply s) = interval_initialize_mcu s"
  "late_callback (read_callback s) \<Longrightarrow> late_callback (read_callback (cb_global_cmd reply s))"
  "useExtendedErase (cb_local_cmd reply s) = useExtendedErase s"
  "interval_initialize_mcu (cb_local_cmd reply s) = interval_initialize_mcu s"
  "late_callback (read_callback s) \<Longrightarrow> late_callback (read_callback (cb_local_cmd reply s))"
  by (simp_all add: cb_ext_global_cmd_def cb_ext_local_cmd_def cb_global_cmd_def
        cb_local_cmd_def on_ack)

lemma upload_procedure_4_fields [simp]:
  "useExtendedErase (upload_procedure_4 s) = useExtendedErase s"
  "interval_initialize_mcu (upload_procedure_4 s) = interval_initialize_mcu s"
  "late_callback (read_callback (upload_procedure_4 s))"
  by (simp_all add: upload_procedure_4_def Let_def)

lemma cb_id_block_fields [simp]:
  "useExtendedErase (cb_id_block dat s) = useExtendedErase s"
  "interval_initialize_mcu (cb_id_block dat s) = interval_initialize_mcu s"
  "late_callback (read_callback s) \<Longrightarrow> late_callback (read_callback (cb_id_block dat s))"
  by (simp_all add: cb_id_block_cases)

lemma cb_id_ack_fields [simp]:
  "useExtendedErase (cb_id_ack dat s) = useExtendedErase s"
  "interval_initialize_mcu (cb_id_ack dat s) = interval_initialize_mcu s"
  "late_callback (read_callback s) \<Longrightarrow> late_callback (read_callback (cb_id_ack dat s))"
  by (simp_all add: cb_id_ack_def on_ack retrieve_block_def retrieve_def split: option.splits)

lemma upload_procedure_3_fields [simp]:
  "useExtendedErase (upload_procedure_3 s) = useExtendedErase s"
  "interval_initialize_mcu (upload_procedure_3 s) = interval_initialize_mcu s"
  "read_callback (upload_procedure_3 s) = Some CbIdAck"
  "procedure_calls (upload_procedure_3 s) = procedure_calls s @ [3]"
  "serial_out (upload_procedure_3 s) = serial_out s @ [[0x02, 0xFD]]"
  "bytesToRead (upload_procedure_3 s) = 2"
  by (simp_all add: upload_procedure_3_def)

lemma run_callback_late:
  assumes "late_callback (Some cb)" and "late_callback (read_callback s)"
  shows "useExtendedErase (run_callback cb dat s) = useExtendedErase s"
    and "interval_initialize_mcu (run_callback cb dat s) = interval_initialize_mcu s"
    and "late_callback (read_callback (run_callback cb dat s))"
  using assms by (cases cb; simp)+

lemma past_get_read:
  assumes "past_get s"
  shows "past_get (read dat s)" and "useExtendedErase (read dat s) = useExtendedErase s"
proof -
  have cb: "late_callback (read_callback s)" and iv: "\<not> interval_initialize_mcu s"
    using assms by (simp_all add: past_get_def)
  show "past_get (read dat s)"
  proof (cases "read_callback s")
    case None
    then show ?thesis using iv by (simp add: read_def Let_def past_get_def)
  next
    case (Some c)
    then have "late_callback (Some c)" using cb by simp
    then show ?thesis
      using Some iv by (simp add: read_def Let_def past_get_def run_callback_late)
  qed
  show "useExtendedErase (read dat s) = useExtendedErase s"
  proof (cases "read_callback s")
    case None
    then show ?thesis by (simp add: read_def Let_def)
  next
    case (Some c)
    then have "late_callback (Some c)" using cb by simp
    then show ?thesis
      using Some by (simp add: read_def Let_def run_callback_late)
  qed
qed

lemma past_get_step:
  assumes "past_get s"
  shows "past_get (step e s)" and "useExtendedErase (step e s) = useExtendedErase s"
proof -
  have iv: "\<not> interval_initialize_mcu s"
    using assms by (simp add: past_get_def)
  have tick: "past_get (timeout_tick s)" "useExtendedErase (timeout_tick s) = useExtendedErase s"
    using assms by (simp_all add: timeout_tick_def past_get_def)
  show "past_get (step e s)"
    using assms iv tick past_get_read [OF assms]
    by (cases e) (simp_all add: step_def)
  show "useExtendedErase (step e s) = useExtendedErase s"
    using assms iv tick past_get_read [OF assms]
    by (cases e) (simp_all add: step_def)
qed

lemma past_get_run:
  "past_get s \<Longrightarrow> useExtendedErase (run es s) = useExtendedErase s"
  by (induction es arbitrary: s) (simp_all add: past_get_step)

lemma verify_chip_signature_depends:
  assumes "hex_bytes_total s' = hex_bytes_total s"
    and "available_flash_size s' = available_flash_size s"
  shows "fst (verify_chip_signature sig s') = fst (verify_chip_signature sig s)"
  using assms by (simp add: verify_chip_signature_def Let_def)

lemma send_untouched [simp]:
  "hex_bytes_total (send frame n cb s) = hex_bytes_total s"
  "available_flash_size (send frame n cb s) = available_flash_size s"
  "receive_buffer (send frame n cb s) = []"
  by (simp_all add: send_def)

lemma enter_untouched [simp]:
  "hex_bytes_total (enter n s) = hex_bytes_total s"
  "available_flash_size (enter n s) = available_flash_size s"
  by (simp_all add: enter_def)

lemma get_response_at_once:
  assumes "length block = unat L + 2"
  shows "read ([ACK, L] @ block) (upload_procedure_2 s)
     = cb_get_block block
         ((upload_procedure_2 s)\<lparr>receive_buffer := block, bytesToRead := 0,
                                   receive_buffer := []\<rparr>)"
  using assms
  by (simp add: upload_procedure_2_def read_after_send cb_get_ack_def retrieve_block_def
        retrieve_def js_index_def)

lemma get_response_in_two:
  assumes "length block = unat L + 2"
  shows "read block (read [ACK, L] (upload_procedure_2 s))
     = cb_get_block block
         ((upload_procedure_2 s)\<lparr>receive_buffer := [], bytesToRead := 0,
               bytesToRead := unat L + 2, read_callback := Some CbGetBlock,
               receive_buffer := block, receive_buffer := [], bytesToRead := 0\<rparr>)"
  using assms
  by (simp add: upload_procedure_2_def read_after_send cb_get_ack_def retrieve_block_def
        retrieve_def js_index_def read_def Let_def)

lemma id_response_at_once:
  assumes "length block = unat L + 2"
  shows "read ([ACK, L] @ block) (upload_procedure_3 s)
     = cb_id_block block
         ((upload_procedure_3 s)\<lparr>receive_buffer := block, bytesToRead := 0,
                                   receive_buffer := []\<rparr>)"
  using assms
  by (simp add: upload_procedure_3_def read_after_send cb_id_ack_def retrieve_block_def
        retrieve_def js_index_def)

lemma cb_get_block_enters_3:
  assumes "dat \<noteq> []"
  shows "useExtendedErase (cb_get_block dat s) = (js_index dat 7 = Some 0x44)"
    and "procedure_calls (cb_get_block dat s) = procedure_calls s @ [3]"
    and "serial_out (cb_get_block dat s) = serial_out s @ [[0x02, 0xFD]]"
    and "past_get (cb_get_block dat s) = (\<not> interval_initialize_mcu s)"
  using assms by (simp_all add: cb_get_block_def past_get_def)

text \<open>
  Claim C1.  Step 2 sends the GET command and awaits two bytes.  When the ACK and the
  length byte \<open>L\<close> have arrived, it retrieves a block of \<open>L + 2\<close> further bytes and
  sets \<open>useExtendedErase\<close> to whether the byte at index 7 of that block is \<open>0x44\<close>
  (false when the block has no index 7).  The flag keeps that value through every later
  event of the session, whatever bytes arrive and whichever interval fires.  This holds
  whether the response arrives in one piece or the block arrives after the first two
  bytes.
\<close>

theorem extended_erase_detection:
  assumes "length block = unat L + 2" and "\<not> interval_initialize_mcu s"
  shows "useExtendedErase (run es (read ([ACK, L] @ block) (upload_procedure_2 s)))
           = (js_index block 7 = Some 0x44)
       \<and> useExtendedErase (run es (read block (read [ACK, L] (upload_procedure_2 s))))
           = (js_index block 7 = Some 0x44)"
proof -
  have ne: "block \<noteq> []" using assms(1) by auto
  have iv: "\<not> interval_initialize_mcu (upload_procedure_2 s)"
    using assms(2) by (simp add: upload_procedure_2_def)
  have one: "past_get (read ([ACK, L] @ block) (upload_procedure_2 s))"
      "useExtendedErase (read ([ACK, L] @ block) (upload_procedure_2 s))
         = (js_index block 7 = Some 0x44)"
    unfolding get_response_at_once [OF assms(1)] using iv
    by (simp_all add: cb_get_block_enters_3 [OF ne])
  have two: "past_get (read block (read [ACK, L] (upload_procedure_2 s)))"
      "useExtendedErase (read block (read [ACK, L] (upload_procedure_2 s)))
         = (js_index block 7 = Some 0x44)"
    unfolding get_response_in_two [OF assms(1)] using iv
    by (simp_all add: cb_get_block_enters_3 [OF ne])
  show ?thesis
    using past_get_run [OF one(1), of es] past_get_run [OF two(1), of es] one(2) two(2)
    by simp
qed

theorem extended_erase_detection_witness:
  "length [0x22, 0x00, 0x01, 0x02, 0x11, 0x21, 0x31, 0x44, 0x63, 0x73, 0x82, 0x92, 0x79 :: byte]
     = unat (0x0B :: byte) + 2
   \<and> \<not> interval_initialize_mcu STM32_protocol
   \<and> useExtendedErase
        (run [Receive [0x79, 0x01, 0x04, 0x10, 0x79], Receive [0x79], TickTimeout]
          (read ([ACK, 0x0B]
                   @ [0x22, 0x00, 0x01, 0x02, 0x11, 0x21, 0x31, 0x44, 0x63, 0x73, 0x82, 0x92, 0x79])
             (upload_procedure_2 STM32_protocol)))"
  using extended_erase_detection
    [of "[0x22, 0x00, 0x01, 0x02, 0x11, 0x21, 0x31, 0x44, 0x63, 0x73, 0x82, 0x92, 0x79]"
        "0x0B" STM32_protocol
        "[Receive [0x79, 0x01, 0x04, 0x10, 0x79], Receive [0x79], TickTimeout]"]
  by (simp add: js_index_def) (simp add: STM32_protocol_def)

text \<open>
  Claim C10.  In steps 2 and 3 the retrieved block of \<open>L + 2\<close> bytes ends with the
  byte \<open>t\<close> that the bootloader sends as its trailing ACK, and no value of \<open>t\<close>, NACK
  included, stops the session.  Step 2 goes on to step 3 for every \<open>t\<close> (the byte is
  looked at only if it happens to sit at index 7, where it sets the erase dialect).  In
  step 3 the whole state reached is the one reached with ACK in that place: step 4 if the
  chip verification of the two ID bytes succeeds, step 99 otherwise.  The leading byte of
  each exchange is verified: anything but ACK ends the session in step 99.
\<close>

theorem trailing_ack_unchecked:
  assumes "length body = unat L + 1" and "length rest + 2 = unat L' + 1"
  shows "procedure_calls (read ([ACK, L] @ body @ [t]) (upload_procedure_2 s))
           = procedure_calls s @ [2, 3]
       \<and> procedure_calls (read ([ACK, L'] @ hi # lo # rest @ [t]) (upload_procedure_3 s))
           = procedure_calls s
               @ [3, if fst (verify_chip_signature (uint hi * 256 + uint lo) s) then 4 else 99]
       \<and> read ([ACK, L'] @ hi # lo # rest @ [t]) (upload_procedure_3 s)
           = read ([ACK, L'] @ hi # lo # rest @ [ACK]) (upload_procedure_3 s)
       \<and> (b \<noteq> ACK \<longrightarrow>
            procedure_calls (read ([b, L] @ body @ [t]) (upload_procedure_2 s))
              = procedure_calls s @ [2, 99]
            \<and> procedure_calls (read ([b, L'] @ hi # lo # rest @ [t]) (upload_procedure_3 s))
              = procedure_calls s @ [3, 99])"
proof (intro conjI impI)
  have len2: "length (body @ [t]) = unat L + 2" using assms(1) by simp
  show "procedure_calls (read ([ACK, L] @ body @ [t]) (upload_procedure_2 s))
           = procedure_calls s @ [2, 3]"
    unfolding get_response_at_once [OF len2]
    by (simp add: cb_get_block_enters_3 upload_procedure_2_def)
  have len3: "length (hi # lo # rest @ [x]) = unat L' + 2" for x
    using assms(2) by simp
  have sig: "signature_of (hi # lo # rest @ [x]) = uint hi * 256 + uint lo" for x
    by (rule signature_of_bytes)
  have id: "read ([ACK, L'] @ hi # lo # rest @ [x]) (upload_procedure_3 s)
      = (let s3 = (upload_procedure_3 s)\<lparr>bytesToRead := 0, receive_buffer := []\<rparr>;
             r = verify_chip_signature (uint hi * 256 + uint lo) s3
         in if fst r then upload_procedure_4 (snd r) else upload_procedure_99 (snd r))" for x
    using id_response_at_once [OF len3 [of x], of s]
    by (simp add: cb_id_block_cases sig Let_def)
  show "read ([ACK, L'] @ hi # lo # rest @ [t]) (upload_procedure_3 s)
           = read ([ACK, L'] @ hi # lo # rest @ [ACK]) (upload_procedure_3 s)"
    unfolding id ..
  have same: "fst (verify_chip_signature sig
                 ((upload_procedure_3 s)\<lparr>bytesToRead := 0, receive_buffer := []\<rparr>))
      = fst (verify_chip_signature sig s)" for sig
    by (rule verify_chip_signature_depends) (simp_all add: upload_procedure_3_def)
  show "procedure_calls (read ([ACK, L'] @ hi # lo # rest @ [t]) (upload_procedure_3 s))
           = procedure_calls s
               @ [3, if fst (verify_chip_signature (uint hi * 256 + uint lo) s) then 4 else 99]"
    unfolding id by (simp add: Let_def same)
next
  assume nack: "b \<noteq> ACK"
  have first: "read (b # L # more) (send cmd 2 cb s0)
      = run_callback cb [b, L] ((send cmd 2 cb s0)\<lparr>receive_buffer := more, bytesToRead := 0\<rparr>)"
    for more cmd cb s0 L
    using read_after_send [of 2 "b # L # more" cmd cb s0] by simp
  show "procedure_calls (read ([b, L] @ body @ [t]) (upload_procedure_2 s))
              = procedure_calls s @ [2, 99]"
    using nack
    by (simp add: upload_procedure_2_def first cb_get_ack_def on_ack verify_response_other)
  show "procedure_calls (read ([b, L'] @ hi # lo # rest @ [t]) (upload_procedure_3 s))
              = procedure_calls s @ [3, 99]"
    using nack
    by (simp add: upload_procedure_3_def first cb_id_ack_def on_ack verify_response_other)
qed

theorem trailing_ack_unchecked_witness:
  "length [0x22, 0x00, 0x01, 0x02, 0x11, 0x21, 0x31, 0x43, 0x63, 0x73, 0x82, 0x92 :: byte]
     = unat (0x0B :: byte) + 1
   \<and> length ([] :: byte list) + 2 = unat (0x01 :: byte) + 1
   \<and> procedure_calls
        (read ([ACK, 0x0B]
                 @ [0x22, 0x00, 0x01, 0x02, 0x11, 0x21, 0x31, 0x43, 0x63, 0x73, 0x82, 0x92]
                 @ [NACK])
           (upload_procedure_2 (STM32_protocol\<lparr>hex_bytes_total := 1024\<rparr>))) = [2, 3]
   \<and> procedure_calls
        (read ([ACK, 0x01] @ 0x04 # 0x10 # [] @ [NACK])
           (upload_procedure_3 (STM32_protocol\<lparr>hex_bytes_total := 1024\<rparr>))) = [3, 4]"
proof -
  have h1: "length [0x22, 0x00, 0x01, 0x02, 0x11, 0x21, 0x31, 0x43, 0x63, 0x73, 0x82, 0x92 :: byte]
     = unat (0x0B :: byte) + 1"
    by simp
  have h2: "length ([] :: byte list) + 2 = unat (0x01 :: byte) + 1"
    by simp
  note t = trailing_ack_unchecked [OF h1 h2, of NACK "STM32_protocol\<lparr>hex_bytes_total := 1024\<rparr>"
      "0x04" "0x10" NACK]
  from t have c1: "procedure_calls
        (read ([ACK, 0x0B]
                 @ [0x22, 0x00, 0x01, 0x02, 0x11, 0x21, 0x31, 0x43, 0x63, 0x73, 0x82, 0x92]
                 @ [NACK])
           (upload_procedure_2 (STM32_protocol\<lparr>hex_bytes_total := 1024\<rparr>)))
      = procedure_calls (STM32_protocol\<lparr>hex_bytes_total := 1024\<rparr>) @ [2, 3]"
    by (rule conjunct1)
  from t have c2: "procedure_calls
        (read ([ACK, 0x01] @ 0x04 # 0x10 # [] @ [NACK])
           (upload_procedure_3 (STM32_protocol\<lparr>hex_bytes_total := 1024\<rparr>)))
      = procedure_calls (STM32_protocol\<lparr>hex_bytes_total := 1024\<rparr>)
          @ [3, if fst (verify_chip_signature (uint (0x04 :: byte) * 256 + uint (0x10 :: byte))
                          (STM32_protocol\<lparr>hex_bytes_total := 1024\<rparr>)) then 4 else 99]"
    by (rule conjunct1 [OF conjunct2])
  have ok: "fst (verify_chip_signature (uint (0x04 :: byte) * 256 + uint (0x10 :: byte))
                          (STM32_protocol\<lparr>hex_bytes_total := 1024\<rparr>))"
    by (simp add: verify_chip_signature_fst verify_chip_signature_geometry)
  have pc: "procedure_calls (STM32_protocol\<lparr>hex_bytes_total := 1024\<rparr>) = []"
    by (simp add: STM32_protocol_def)
  show ?thesis
    using h1 h2 c1 c2 unfolding pc by (simp only: ok if_True append_Nil simp_thms)
qed

section \<open>Properties of the partial erase\<close>

lemma xor_fold_simps [simp]:
  "xor_fold [] = 0" "xor_fold (b # bs) = b XOR xor_fold bs"
  by (simp_all add: xor_fold_def)

lemma xor_fold_append: "xor_fold (xs @ ys) = xor_fold xs XOR xor_fold ys"
  by (induction xs) (simp_all add: xor.assoc)

lemma extended_pages_wire:
  "map ToUint8 (fst (extended_pages i n (buff, checksum)))
     = map ToUint8 buff
       @ concat (map (\<lambda>j. [ToUint8 (int j div 256), ToUint8 (int j)]) [i..<nat n])
   \<and> ToUint8 (snd (extended_pages i n (buff, checksum)))
     = ToUint8 checksum
       XOR xor_fold (concat (map (\<lambda>j. [ToUint8 (int j div 256), ToUint8 (int j)])
                               [i..<nat n]))"
proof (induction "nat n - i" arbitrary: i buff checksum)
  case 0
  then have stop: "\<not> int i < n" by linarith
  then have "[i..<nat n] = []" by simp
  with stop show ?case
    by (simp add: extended_pages.simps [of i])
next
  case (Suc k)
  then have more: "int i < n" by linarith
  then have upt: "[i..<nat n] = i # [i + 1..<nat n]"
    by (simp add: upt_conv_Cons)
  let ?b = "buff @ [js_shr (int i) 8] @ [js_and (int i) 0xFF]"
  let ?c = "js_xor (js_xor checksum (js_shr (int i) 8)) (js_and (int i) 0xFF)"
  have unfold: "extended_pages i n (buff, checksum) = extended_pages (i + 1) n (?b, ?c)"
    using more by (simp add: extended_pages.simps [of i] Let_def)
  have k: "k = nat n - (i + 1)" using Suc.hyps(2) by linarith
  have hi: "ToUint8 (js_shr (int i) 8) = ToUint8 (int i div 256)"
    using ToUint8_js_shr [of 8 "int i"] by simp
  show ?case
    unfolding unfold using Suc.hyps(1) [OF k, of ?b ?c]
    by (simp add: upt hi ToUint8_js_and_255 ToUint8_js_xor xor.assoc)
qed

lemma classic_pages_wire:
  "map ToUint8 (fst (classic_pages i n (buff, checksum)))
     = map ToUint8 buff @ map (\<lambda>j. ToUint8 (int j)) [i..<nat n]
   \<and> ToUint8 (snd (classic_pages i n (buff, checksum)))
     = ToUint8 checksum XOR xor_fold (map (\<lambda>j. ToUint8 (int j)) [i..<nat n])"
proof (induction "nat n - i" arbitrary: i buff checksum)
  case 0
  then have stop: "\<not> int i < n" by linarith
  then have "[i..<nat n] = []" by simp
  with stop show ?case
    by (simp add: classic_pages.simps [of i])
next
  case (Suc k)
  then have more: "int i < n" by linarith
  then have upt: "[i..<nat n] = i # [i + 1..<nat n]"
    by (simp add: upt_conv_Cons)
  have unfold: "classic_pages i n (buff, checksum)
      = classic_pages (i + 1) n (buff @ [int i], js_xor checksum (int i))"
    using more by (simp add: classic_pages.simps [of i])
  have k: "k = nat n - (i + 1)" using Suc.hyps(2) by linarith
  show ?case
    unfolding unfold using Suc.hyps(1) [OF k, of "buff @ [int i]" "js_xor checksum (int i)"]
    by (simp add: upt ToUint8_js_xor xor.assoc)
qed

lemma extended_erase_frame_wire:
  "map_option (map ToUint8) (extended_erase_frame (Num n)) = Some (extended_list_frame_spec n)"
proof -
  have hi: "ToUint8 (js_shr (n - 1) 8) = ToUint8 ((n - 1) div 256)"
    using ToUint8_js_shr [of 8 "n - 1"] by simp
  have zero: "ToUint8 (js_xor 0 v) = ToUint8 v" for v
    by (simp add: ToUint8_js_xor)
  show ?thesis
    using extended_pages_wire [of 0 n "[js_shr (n - 1) 8, js_and (n - 1) 0xFF]"
        "js_xor (js_xor 0 (js_shr (n - 1) 8)) (js_and (n - 1) 0xFF)"]
    by (simp add: extended_erase_frame_def extended_list_frame_spec_def be16_def Let_def
          split_beta hi ToUint8_js_and_255 ToUint8_js_xor zero xor_fold_append xor.assoc)
qed

lemma classic_erase_frame_wire:
  "map_option (map ToUint8) (classic_erase_frame (Num n)) = Some (classic_list_frame_spec n)"
  using classic_pages_wire [of 0 n "[n - 1]" "n - 1"]
  by (simp add: classic_erase_frame_def classic_list_frame_spec_def Let_def split_beta
        xor_fold_append)


lemma ceil_div_bounds:
  assumes "0 < b"
  shows "b * (ceil_div a b - 1) < a" and "a \<le> b * ceil_div a b"
proof -
  define q where "q = (- a) div b"
  define r' where "r' = (- a) mod b"
  have m: "- a = b * q + r'" by (simp add: q_def r'_def)
  have r: "0 \<le> (- a) mod b" "(- a) mod b < b" using assms by simp_all
  have "b * ceil_div a b = - (b * q)" by (simp add: ceil_div_def q_def)
  also have "\<dots> = a + r'" using m by linarith
  finally have e: "b * ceil_div a b = a + (- a) mod b" by (simp add: r'_def)
  show "a \<le> b * ceil_div a b" using e r by linarith
  have "b * (ceil_div a b - 1) = a + (- a) mod b - b"
    using e by (simp add: algebra_simps)
  then show "b * (ceil_div a b - 1) < a" using r by linarith
qed

lemma be16_exact:
  assumes "0 \<le> v" and "v < 65536"
  shows "map uint (be16 v) = [v div 256, v mod 256]"
proof -
  have "0 \<le> v div 256" "v div 256 < 256" using assms by simp_all
  then have "(v div 256) mod 256 = v div 256" by simp
  then show ?thesis
    by (simp add: be16_def ToUint8_def uint_word_of_int take_bit_eq_mod)
qed

lemma byte_exact:
  assumes "0 \<le> v" and "v < 256"
  shows "uint (ToUint8 v) = v"
  using assms by (simp add: ToUint8_def uint_word_of_int take_bit_eq_mod)

lemma local_erase_sends:
  assumes "hex_data s \<noteq> []" and "0 < page_size s"
    and "map_option (map ToUint8)
           (frame (Num (ceil_div (max_address (last (hex_data s))) (int (page_size s)))))
         = Some wire"
  shows "serial_out (local_erase frame s) = serial_out s @ [wire]"
    and "bytesToRead (local_erase frame s) = 1"
    and "read_callback (local_erase frame s) = Some CbEraseFrame"
  using assms
  by (auto simp: local_erase_def Let_def erase_pages_n_def ceil_div_def split: option.splits)

text \<open>
  Claim C3 says that for every image and every positive page size the list frame carries
  \<open>pages - 1\<close> in its header and the page indices 0 to \<open>pages - 1\<close>.  An image
  whose last segment is four bytes at \<open>0x08080000\<close> has, with pages of 2048 bytes,
  \<open>pages = 257\<close>; in the classic dialect the header byte of its frame is 0, not 256,
  while the frame still carries 257 index bytes.
\<close>

theorem partial_erase_page_range_counterexample:
  "erase_pages_n
      (max_address \<lparr>address = 0x8080000, bytes = 4, data = [0x01, 0x02, 0x03, 0x04]\<rparr>)
      2048 = Num 257
   \<and> map_option (\<lambda>frame. uint (hd (map ToUint8 frame))) (classic_erase_frame (Num 257))
       = Some 0
   \<and> map_option length (classic_erase_frame (Num 257)) = Some 259"
proof -
  have "map_option (\<lambda>frame. uint (hd frame))
          (map_option (map ToUint8) (classic_erase_frame (Num 257))) = Some 0"
    unfolding classic_erase_frame_wire
    by (simp add: classic_list_frame_spec_def Let_def ToUint8_def)
  moreover have "map_option length (map_option (map ToUint8) (classic_erase_frame (Num 257)))
      = Some 259"
    unfolding classic_erase_frame_wire
    by (simp add: classic_list_frame_spec_def Let_def)
  ultimately show ?thesis
    by (simp add: erase_pages_n_def max_address_def option.map_comp comp_def)
qed

text \<open>
  Claim C3, amended.  For every image with a last segment at address \<open>A\<close> with
  \<open>B\<close> bytes and every page size \<open>P > 0\<close>, the partial erase computes
  \<open>pages\<close>, the least integer with \<open>A + B - 0x08000000 \<le> P * pages\<close>, and after
  the acknowledged command sends one frame and awaits one byte.  The frame is the header,
  the page indices 0 to \<open>pages - 1\<close> in ascending order and one checksum byte, the XOR
  of every byte before it; header and indices take two bytes each, most significant
  first, in the extended dialect and one byte each in the classic dialect, every number
  reduced to the low bits that fit.  The header is exactly \<open>pages - 1\<close> and every index
  exactly itself when \<open>1 \<le> pages \<le> 65536\<close> (extended) or \<open>1 \<le> pages \<le> 256\<close>
  (classic).
\<close>

theorem partial_erase_list_frame:
  assumes "hex_data s \<noteq> []" and "0 < page_size s"
    and "pages = ceil_div (max_address (last (hex_data s))) (int (page_size s))"
  shows "int (page_size s) * (pages - 1) < max_address (last (hex_data s))
       \<and> max_address (last (hex_data s)) \<le> int (page_size s) * pages
       \<and> serial_out (cb_ext_local_cmd [ACK] s) = serial_out s @ [extended_list_frame_spec pages]
       \<and> bytesToRead (cb_ext_local_cmd [ACK] s) = 1
       \<and> serial_out (cb_local_cmd [ACK] s) = serial_out s @ [classic_list_frame_spec pages]
       \<and> bytesToRead (cb_local_cmd [ACK] s) = 1
       \<and> (1 \<le> pages \<and> pages \<le> 65536 \<longrightarrow>
            map uint (be16 (pages - 1)) = [(pages - 1) div 256, (pages - 1) mod 256]
            \<and> (\<forall>i<nat pages. map uint (be16 (int i)) = [int i div 256, int i mod 256]))
       \<and> (1 \<le> pages \<and> pages \<le> 256 \<longrightarrow>
            uint (ToUint8 (pages - 1)) = pages - 1
            \<and> (\<forall>i<nat pages. uint (ToUint8 (int i)) = int i))"
proof (intro conjI impI allI)
  have P: "0 < int (page_size s)" using assms(2) by simp
  show "int (page_size s) * (pages - 1) < max_address (last (hex_data s))"
    unfolding assms(3) by (rule ceil_div_bounds(1) [OF P])
  show "max_address (last (hex_data s)) \<le> int (page_size s) * pages"
    unfolding assms(3) by (rule ceil_div_bounds(2) [OF P])
  have ext: "map_option (map ToUint8)
           (extended_erase_frame
              (Num (ceil_div (max_address (last (hex_data s))) (int (page_size s)))))
         = Some (extended_list_frame_spec pages)"
    unfolding assms(3) by (rule extended_erase_frame_wire)
  have cls: "map_option (map ToUint8)
           (classic_erase_frame
              (Num (ceil_div (max_address (last (hex_data s))) (int (page_size s)))))
         = Some (classic_list_frame_spec pages)"
    unfolding assms(3) by (rule classic_erase_frame_wire)
  show "serial_out (cb_ext_local_cmd [ACK] s) = serial_out s @ [extended_list_frame_spec pages]"
    using local_erase_sends(1) [where frame = extended_erase_frame, OF assms(1,2) ext] by (simp add: cb_ext_local_cmd_def)
  show "bytesToRead (cb_ext_local_cmd [ACK] s) = 1"
    using local_erase_sends(2) [where frame = extended_erase_frame, OF assms(1,2) ext] by (simp add: cb_ext_local_cmd_def)
  show "serial_out (cb_local_cmd [ACK] s) = serial_out s @ [classic_list_frame_spec pages]"
    using local_erase_sends(1) [where frame = classic_erase_frame, OF assms(1,2) cls] by (simp add: cb_local_cmd_def)
  show "bytesToRead (cb_local_cmd [ACK] s) = 1"
    using local_erase_sends(2) [where frame = classic_erase_frame, OF assms(1,2) cls] by (simp add: cb_local_cmd_def)
next
  assume "1 \<le> pages \<and> pages \<le> 65536"
  then show "map uint (be16 (pages - 1)) = [(pages - 1) div 256, (pages - 1) mod 256]"
    by (intro be16_exact) simp_all
next
  fix i
  assume "1 \<le> pages \<and> pages \<le> 65536" and "i < nat pages"
  then have "0 \<le> int i" "int i < 65536" by linarith+
  then show "map uint (be16 (int i)) = [int i div 256, int i mod 256]"
    by (rule be16_exact)
next
  assume "1 \<le> pages \<and> pages \<le> 256"
  then show "uint (ToUint8 (pages - 1)) = pages - 1"
    by (intro byte_exact) simp_all
next
  fix i
  assume "1 \<le> pages \<and> pages \<le> 256" and "i < nat pages"
  then have "0 \<le> int i" "int i < 256" by linarith+
  then show "uint (ToUint8 (int i)) = int i"
    by (rule byte_exact)
qed

theorem partial_erase_list_frame_witness:
  "hex_data (STM32_protocol\<lparr>hex_data := [\<lparr>address = 0x8000000, bytes = 5,
                 data = [1, 2, 3, 4, 5]\<rparr>], page_size := 2\<rparr>) \<noteq> []
   \<and> 0 < page_size (STM32_protocol\<lparr>hex_data := [\<lparr>address = 0x8000000, bytes = 5,
                 data = [1, 2, 3, 4, 5]\<rparr>], page_size := 2\<rparr>)
   \<and> (3 :: int) = ceil_div (max_address (last (hex_data
            (STM32_protocol\<lparr>hex_data := [\<lparr>address = 0x8000000, bytes = 5,
                 data = [1, 2, 3, 4, 5]\<rparr>], page_size := 2\<rparr>))))
          (int (page_size (STM32_protocol\<lparr>hex_data := [\<lparr>address = 0x8000000, bytes = 5,
                 data = [1, 2, 3, 4, 5]\<rparr>], page_size := 2\<rparr>)))
   \<and> serial_out (cb_ext_local_cmd [ACK]
         (STM32_protocol\<lparr>hex_data := [\<lparr>address = 0x8000000, bytes = 5,
                 data = [1, 2, 3, 4, 5]\<rparr>], page_size := 2\<rparr>))
       = [[0, 2, 0, 0, 0, 1, 0, 2, 1]]
   \<and> serial_out (cb_local_cmd [ACK]
         (STM32_protocol\<lparr>hex_data := [\<lparr>address = 0x8000000, bytes = 5,
                 data = [1, 2, 3, 4, 5]\<rparr>], page_size := 2\<rparr>))
       = [[2, 0, 1, 2, 1]]"
proof -
  let ?s = "STM32_protocol\<lparr>hex_data := [\<lparr>address = 0x8000000, bytes = 5,
                 data = [1, 2, 3, 4, 5]\<rparr>], page_size := 2\<rparr>"
  have h1: "hex_data ?s \<noteq> []" by simp
  have h2: "0 < page_size ?s" by simp
  have h3: "(3 :: int) = ceil_div (max_address (last (hex_data ?s))) (int (page_size ?s))"
    by (simp add: ceil_div_def max_address_def)
  have out: "serial_out ?s = []" by (simp add: STM32_protocol_def)
  have upt3: "[0..<3] = [0, 1, 2 :: nat]" by (simp add: upt_rec)
  have e: "extended_list_frame_spec 3 = [0, 2, 0, 0, 0, 1, 0, 2, 1]"
    by (simp add: extended_list_frame_spec_def be16_def Let_def upt3 ToUint8_def)
  have c: "classic_list_frame_spec 3 = [2, 0, 1, 2, 1]"
    by (simp add: classic_list_frame_spec_def Let_def upt3 ToUint8_def)
  note t = partial_erase_list_frame [OF h1 h2 h3]
  from t have t1: "serial_out (cb_ext_local_cmd [ACK] ?s) = serial_out ?s @ [extended_list_frame_spec 3]"
    by blast
  from t have t2: "serial_out (cb_local_cmd [ACK] ?s) = serial_out ?s @ [classic_list_frame_spec 3]"
    by blast
  show ?thesis
    using h1 h2 h3 t1 t2 unfolding out e c by simp
qed

section \<open>Properties of the data frame of step 5\<close>

lemma js_set_at_end: "js_set arr (length arr) v = arr @ [v]"
  by (simp add: js_set_def)

lemma write_fill_result:
  assumes "length arrayOut = ii + 1"
  shows "write_fill ii n dat (arrayOut, checksum, flashed)
     = (arrayOut @ map (\<lambda>k. js_number (js_index dat k)) [flashed..<flashed + (n - ii)],
        fold (\<lambda>k c. js_xor c (js_number (js_index dat k))) [flashed..<flashed + (n - ii)]
          checksum,
        flashed + (n - ii))"
  using assms
proof (induction "n - ii" arbitrary: ii arrayOut checksum flashed)
  case 0
  then show ?case by (simp add: write_fill.simps [of ii])
next
  case (Suc k)
  then have more: "ii < n" by linarith
  let ?v = "js_number (js_index dat flashed)"
  have unfold: "write_fill ii n dat (arrayOut, checksum, flashed)
      = write_fill (ii + 1) n dat (arrayOut @ [?v], js_xor checksum ?v, flashed + 1)"
    using more Suc.prems js_set_at_end [of arrayOut ?v]
    by (simp add: write_fill.simps [of ii])
  have k: "k = n - (ii + 1)" using Suc.hyps(2) by linarith
  have len: "length (arrayOut @ [?v]) = (ii + 1) + 1" using Suc.prems by simp
  have fl: "flashed + 1 + (n - (ii + 1)) = flashed + (n - ii)" using more by linarith
  have "flashed < flashed + (n - ii)" using more by simp
  then have "[flashed..<flashed + (n - ii)] = flashed # [Suc flashed..<flashed + (n - ii)]"
    by (rule upt_conv_Cons)
  then have upt: "[flashed..<flashed + (n - ii)]
      = flashed # [flashed + 1..<flashed + 1 + (n - (ii + 1))]"
    unfolding fl by simp
  have d: "Suc (n - Suc ii) = n - ii" using more by linarith
  show ?case
    unfolding unfold Suc.hyps(1) [OF k len] upt by (simp add: fl d)
qed

lemma ToUint8_uint [simp]: "ToUint8 (uint b) = b"
  by (simp add: ToUint8_def)

lemma fold_js_xor_wire:
  "ToUint8 (fold (\<lambda>k c. js_xor c (f k)) ks c0)
     = ToUint8 c0 XOR xor_fold (map (\<lambda>k. ToUint8 (f k)) ks)"
  by (induction ks arbitrary: c0) (simp_all add: ToUint8_js_xor xor.assoc)

lemma payload_in_range:
  assumes "flashed + n \<le> length dat"
  shows "map (\<lambda>k. ToUint8 (js_number (js_index dat k))) [flashed..<flashed + n]
     = take n (drop flashed dat)"
proof -
  have "map (\<lambda>k. ToUint8 (js_number (js_index dat k))) [flashed..<flashed + n]
      = map (\<lambda>k. dat ! k) [flashed..<flashed + n]"
    using assms by (intro map_cong) (simp_all add: js_index_def js_number_def)
  also have "\<dots> = take n (drop flashed dat)"
    using assms by (intro nth_equalityI) simp_all
  finally show ?thesis .
qed

lemma store_in_last_slot:
  assumes "payload \<noteq> []"
  shows "js_set (x # payload) (length (x # payload) - 1) c = x # butlast payload @ [c]"
proof -
  have "payload[length payload - 1 := c] = butlast payload @ [c]"
    using assms by (metis append_butlast_last_id length_butlast list_update_length)
  moreover obtain j where j: "length payload = Suc j"
    using assms by (cases payload) simp_all
  ultimately show ?thesis
    by (simp add: js_set_def)
qed

lemma data_frame_wire:
  assumes "1 \<le> n" and "flashed + n \<le> length dat"
  shows "map ToUint8 (fst (data_frame n dat flashed))
     = ToUint8 (int n - 1) # butlast (take n (drop flashed dat))
       @ [ToUint8 (int n - 1) XOR xor_fold (take n (drop flashed dat))]"
    and "snd (data_frame n dat flashed) = flashed + n"
proof -
  define payload where "payload = map (\<lambda>k. js_number (js_index dat k)) [flashed..<flashed + n]"
  define cs where "cs = fold (\<lambda>k c. js_xor c (js_number (js_index dat k)))
                          [flashed..<flashed + n] (int n - 1)"
  have fill: "write_fill 0 n dat ([int n - 1], int n - 1, flashed)
      = ((int n - 1) # payload, cs, flashed + n)"
    using write_fill_result [of "[int n - 1]" 0 n dat "int n - 1" flashed]
    by (simp add: payload_def cs_def)
  have ne: "payload \<noteq> []" using assms(1) by (simp add: payload_def)
  have first: "js_set [] 0 (int n - 1) = [int n - 1]"
    by (simp add: js_set_def)
  have frame: "data_frame n dat flashed = ((int n - 1) # butlast payload @ [cs], flashed + n)"
    unfolding data_frame_def Let_def first
    by (simp only: nth_Cons_0 fill split_conv store_in_last_slot [OF ne])
  show "snd (data_frame n dat flashed) = flashed + n"
    by (simp add: frame)
  have wire: "map ToUint8 payload = take n (drop flashed dat)"
    using payload_in_range [OF assms(2)] by (simp add: payload_def comp_def)
  have sum: "ToUint8 cs = ToUint8 (int n - 1) XOR xor_fold (take n (drop flashed dat))"
    unfolding cs_def fold_js_xor_wire using payload_in_range [OF assms(2)] by simp
  show "map ToUint8 (fst (data_frame n dat flashed))
     = ToUint8 (int n - 1) # butlast (take n (drop flashed dat))
       @ [ToUint8 (int n - 1) XOR xor_fold (take n (drop flashed dat))]"
    by (simp add: frame map_butlast sum flip: wire)
qed

lemma write_next_starts_chunk:
  assumes "js_index (hex_data s) (flashing_block s) = Some seg"
    and "bytes_flashed s < bytes seg"
  shows "write_next s
     = send [0x31, 0xCE] 1 (CbWriteCmd (min 256 (bytes seg - bytes_flashed s))) s"
proof -
  have "(if bytes_flashed s + 256 \<le> bytes seg then 256 else bytes seg - bytes_flashed s)
      = min 256 (bytes seg - bytes_flashed s)"
    using assms(2) unfolding min_def by auto
  then show ?thesis
    using assms by (subst write_next.simps) (simp add: Let_def)
qed

text \<open>
  One chunk of a well-formed segment: the closure \<^verbatim>\<open>write\<close> takes
  \<open>n = min 256 (bytes - bytes_flashed)\<close> bytes, sends the command frame, on ACK the
  address frame, and on ACK the data frame.  The frame starts with \<open>n - 1\<close> and ends
  with the XOR of \<open>n - 1\<close> and all \<open>n\<close> payload bytes, but between them it holds the
  payload without its last byte.
\<close>

lemma write_chunk_exchange:
  assumes seg: "js_index (hex_data s) (flashing_block s) = Some seg"
    and more: "bytes_flashed s < bytes seg"
    and len: "bytes seg = length (data seg)"
    and n: "n = min 256 (bytes seg - bytes_flashed s)"
  shows "serial_out (read [ACK] (read [ACK] (write_next s)))
     = serial_out s
       @ [[0x31, 0xCE],
          map ToUint8 (address_frame (write_address s)),
          ToUint8 (int n - 1) # butlast (take n (drop (bytes_flashed s) (data seg)))
            @ [ToUint8 (int n - 1) XOR xor_fold (take n (drop (bytes_flashed s) (data seg)))]]"
    and "bytes_flashed (read [ACK] (read [ACK] (write_next s))) = bytes_flashed s + n"
    and "write_address (read [ACK] (read [ACK] (write_next s))) = write_address s + int n"
proof -
  have n1: "1 \<le> n" and fits: "bytes_flashed s + n \<le> length (data seg)"
    using more len n by simp_all
  note frame = data_frame_wire [OF n1 fits]
  have start: "write_next s = send [0x31, 0xCE] 1 (CbWriteCmd n) s"
    unfolding n by (rule write_next_starts_chunk [OF seg more])
  have addr: "read [ACK] (write_next s)
      = send (address_frame (write_address s)) 1 (CbWriteAddr n)
          ((send [0x31, 0xCE] 1 (CbWriteCmd n) s)\<lparr>receive_buffer := [], bytesToRead := 0\<rparr>)"
    unfolding start read_erase_command by (simp add: cb_write_cmd_def send_def)
  have dat: "read [ACK] (read [ACK] (write_next s))
      = cb_write_addr n [ACK]
          ((read [ACK] (write_next s))\<lparr>receive_buffer := [], bytesToRead := 0\<rparr>)"
    by (subst (1 2) addr, unfold read_erase_command) simp
  have st: "hex_data (read [ACK] (write_next s)) = hex_data s"
      "flashing_block (read [ACK] (write_next s)) = flashing_block s"
      "bytes_flashed (read [ACK] (write_next s)) = bytes_flashed s"
      "write_address (read [ACK] (write_next s)) = write_address s"
      "serial_out (read [ACK] (write_next s))
         = serial_out s @ [[0x31, 0xCE], map ToUint8 (address_frame (write_address s))]"
    unfolding addr by (simp_all add: send_def)
  show "serial_out (read [ACK] (read [ACK] (write_next s)))
     = serial_out s
       @ [[0x31, 0xCE],
          map ToUint8 (address_frame (write_address s)),
          ToUint8 (int n - 1) # butlast (take n (drop (bytes_flashed s) (data seg)))
            @ [ToUint8 (int n - 1) XOR xor_fold (take n (drop (bytes_flashed s) (data seg)))]]"
    unfolding dat using frame(1)
    by (simp add: cb_write_addr_def st seg Let_def split_beta)
  show "bytes_flashed (read [ACK] (read [ACK] (write_next s))) = bytes_flashed s + n"
    unfolding dat using frame(2)
    by (simp add: cb_write_addr_def st seg Let_def split_beta send_def)
  show "write_address (read [ACK] (read [ACK] (write_next s))) = write_address s + int n"
    unfolding dat
    by (simp add: cb_write_addr_def st seg Let_def split_beta send_def)
qed

text \<open>
  Claim C4 at a segment of two bytes \<open>0x11, 0x22\<close>.  The claim, as the comments of
  the source do (\<^verbatim>\<open>2 byte overhead [N, ...., checksum]\<close>), asks for the data frame
  \<open>[0x01, 0x11, 0x22, 0x32]\<close>.  The frame that is sent has three bytes: the checksum
  \<open>0x32\<close> stands where the payload byte \<open>0x22\<close> should be.
\<close>

theorem data_frame_loses_last_payload_byte:
  "serial_out
     (read [ACK] (read [ACK]
        (upload_procedure_5
           (STM32_protocol\<lparr>hex_data := [\<lparr>address = 0x8000000, bytes = 2,
                                             data = [0x11, 0x22]\<rparr>],
                           hex_bytes_total := 2\<rparr>))))
   = [[0x31, 0xCE], [0x08, 0x00, 0x00, 0x00, 0x08], [0x01, 0x11, 0x32]]"
proof -
  let ?seg = "\<lparr>address = 0x8000000, bytes = 2, data = [0x11, 0x22 :: byte]\<rparr>"
  let ?s = "STM32_protocol\<lparr>hex_data := [?seg], hex_bytes_total := 2\<rparr>"
  let ?s5 = "(flashingMessage stm32Flashing (enter 5 ?s))
               \<lparr>blocks := int (length (hex_data (flashingMessage stm32Flashing (enter 5 ?s)))) - 1,
                 flashing_block := 0, write_address := address ?seg, bytes_flashed := 0\<rparr>"
  have up5: "upload_procedure_5 ?s = write_next ?s5"
    by (simp add: upload_procedure_5_def Let_def js_index_def flashingMessage_def enter_def)
  have seg: "js_index (hex_data ?s5) (flashing_block ?s5) = Some ?seg"
    by (simp add: js_index_def flashingMessage_def enter_def)
  have more: "bytes_flashed ?s5 < bytes ?seg" by simp
  have len: "bytes ?seg = length (data ?seg)" by simp
  have n: "(2 :: nat) = min 256 (bytes ?seg - bytes_flashed ?s5)" by simp
  have addr: "map ToUint8 (address_frame (write_address ?s5)) = [0x08, 0x00, 0x00, 0x00, 0x08]"
    by (simp add: address_frame_bytes ToUint8_def)
  have out: "serial_out ?s5 = []"
    by (simp add: STM32_protocol_def flashingMessage_def enter_def)
  show ?thesis
    unfolding up5 write_chunk_exchange(1) [OF seg more len n] addr out
    by (simp add: ToUint8_def)
qed

section \<open>Chip verification in a second session\<close>

lemmas run_defs = session_defs connect_again_def upload_procedure_3_def upload_procedure_4_def
  cb_get_ack_def cb_get_block_def cb_id_ack_def cb_id_block_def verify_chip_signature_def
  verify_response_def retrieve_block_def retrieve_def signature_of_bytes

text \<open>
  Claim C5 asks that a product id that is unknown or has no geometry ends the session
  before any erase.  On a new object it does: with the ID bytes \<open>0x04, 0x13\<close>, a
  family the \<^verbatim>\<open>switch\<close> gives no geometry, the session goes from step 3 to step 99.
  \<^verbatim>\<open>initialize\<close> resets the receive buffer, the verification buffer and the alive
  flag, but not \<open>available_flash_size\<close> and \<open>page_size\<close>.  After a session on the
  same object that identified the chip \<open>0x410\<close>, the size is still 131072: the same ID
  bytes are then accepted for an image of 4 bytes, the session enters step 4 and the erase
  command \<open>0x43, 0xBC\<close> is sent.
\<close>

theorem stale_flash_size_accepts_unknown_chip:
  "procedure_calls
     (run [TickInitializeMcu, Receive [0x79],
           Receive [0x79, 0x0B, 0x22, 0x00, 0x01, 0x02, 0x11, 0x21, 0x31, 0x43, 0x63, 0x73,
                    0x82, 0x92, 0x79],
           Receive [0x79, 0x01, 0x04, 0x13, 0x79]]
        (connect [\<lparr>address = 0x8000000, bytes = 4, data = [0x01, 0x02, 0x03, 0x04]\<rparr>] 4 False))
     = [1, 2, 3, 99]
   \<and> procedure_calls
     (run [TickInitializeMcu, Receive [0x79],
           Receive [0x79, 0x0B, 0x22, 0x00, 0x01, 0x02, 0x11, 0x21, 0x31, 0x43, 0x63, 0x73,
                    0x82, 0x92, 0x79],
           Receive [0x79, 0x01, 0x04, 0x13, 0x79]]
        (connect_again
           (run [TickInitializeMcu, Receive [0x79],
                 Receive [0x79, 0x0B, 0x22, 0x00, 0x01, 0x02, 0x11, 0x21, 0x31, 0x43, 0x63,
                          0x73, 0x82, 0x92, 0x79],
                 Receive [0x79, 0x01, 0x04, 0x10, 0x79],
                 TickTimeout, TickTimeout]
              (connect [\<lparr>address = 0x8000000, bytes = 4, data = [0x01, 0x02, 0x03, 0x04]\<rparr>]
                 4 False))
           [\<lparr>address = 0x8000000, bytes = 4, data = [0x01, 0x02, 0x03, 0x04]\<rparr>] 4 False))
     = [1, 2, 3, 4, 99, 1, 2, 3, 4]
   \<and> last (serial_out
     (run [TickInitializeMcu, Receive [0x79],
           Receive [0x79, 0x0B, 0x22, 0x00, 0x01, 0x02, 0x11, 0x21, 0x31, 0x43, 0x63, 0x73,
                    0x82, 0x92, 0x79],
           Receive [0x79, 0x01, 0x04, 0x13, 0x79]]
        (connect_again
           (run [TickInitializeMcu, Receive [0x79],
                 Receive [0x79, 0x0B, 0x22, 0x00, 0x01, 0x02, 0x11, 0x21, 0x31, 0x43, 0x63,
                          0x73, 0x82, 0x92, 0x79],
                 Receive [0x79, 0x01, 0x04, 0x10, 0x79],
                 TickTimeout, TickTimeout]
              (connect [\<lparr>address = 0x8000000, bytes = 4, data = [0x01, 0x02, 0x03, 0x04]\<rparr>]
                 4 False))
           [\<lparr>address = 0x8000000, bytes = 4, data = [0x01, 0x02, 0x03, 0x04]\<rparr>] 4 False)))
     = [0x43, 0xBC]"
  by (simp add: run_defs)

end
